theory Spec2Isabelle
  imports Complex_Main "HOL-Library.Word"
begin

section \<open>The scene loader of src/libcore/xml.cpp\<close>

text \<open>
  The loader reads an XML document in two passes. The first pass, \<open>parse_xml\<close>, walks the
  document, checks it, and fills a table of object descriptors; the second pass,
  \<open>instantiate_node\<close>, builds the objects. The definitions below follow the source in its
  own order and keep its names.

  Conventions of the embedding.
  \<^item> A pugixml node is a value of \<open>xml_node\<close>; the code edits nodes in place, the model
    returns the edited node where later code reads it.
  \<^item> An exception is the left summand of a sum type. \<open>message\<close> lists the messages of the
    source; \<open>error\<close> is a message with the source id and the byte offset of the node that
    \<open>XMLSource::throw_error\<close> attaches to it. The text \<open>line N, col C\<close> that the source
    computes from the byte offset is not modelled: the byte offset stands for it.
  \<^item> \<open>Float\<close> values are real numbers: exact arithmetic, no rounding, no infinities and no
    NaN. The comparisons and the subtraction that the claims are about read as in the source.
  \<^item> What the source takes from headers and libraries that are not part of the sources
    (string tokenisation, \<open>std::stof\<close>, \<open>Transform4f\<close>, the plugin manager, the file
    system, the version macros) is a field of the record \<open>env\<close>.
\<close>

subsection \<open>Tags and versions\<close>

datatype ETag =
  EBoolean | EInteger | EFloat | EString | EPoint | EVector | ESpectrum | ERGB
  | EColor | ETransform | ETranslate | EMatrix | ERotate | EScale | ELookAt | EObject
  | ENamedReference | EInclude | EAlias | EDefault | EInvalid

record Version =
  major :: "32 word"
  minor :: "32 word"
  patch :: "32 word"

definition Version_lt :: "Version \<Rightarrow> Version \<Rightarrow> bool" where
  "Version_lt v w \<longleftrightarrow>
     major v < major w \<or> (major v = major w \<and>
       (minor v < minor w \<or> (minor v = minor w \<and> patch v < patch w)))"

subsection \<open>Errors\<close>

datatype 'e message =
    UnexpectedContent
  | UnexpectedTag string
  | RootNotObject string
  | TransformOnlyOps
  | OpsOnlyInTransform
  | ChildOfProperty string
  | MissingVersion string
  | BadVersion string
  | InvalidName string string
  | InvalidId string string
  | UnexpectedAttribute string string
  | MissingAttribute string string
  | DuplicateId string string nat
  | NoClassForTag string
  | ReferencedIdNotFound string
  | DefaultNameEmpty
  | IncludeNotFound string
  | IncludeRecursionLimit
  | IncludeLoadError string nat string
  | BadFloat string
  | BadInteger string
  | BadBoolean string
  | MixValueXYZ
  | ValueCount
  | NamedVectorCount string
  | BadNamedVector string
  | ColorCount string
  | BadColor string
  | RGBCount string
  | BadRGB string
  | RGBRange
  | BadConstantSpectrum string
  | SpectrumPairExpected
  | BadWavelengthPair string
  | WavelengthOrder
  | IrregularSpectrum
  | InvalidLookat
  | MatrixCount
  | UnhandledElement string
  | VersionParts
  | StdInvalidArgument
  | TrailingCharacters string
  | PluginFailure string
  | UndefinedBehaviour
  | Nested 'e

datatype error = Error string nat "error message"

type_synonym msg = "error message"

subsection \<open>Strings\<close>

text \<open>
  Modelled from the spec: \<open>string::to_lower\<close>, \<open>string::starts_with\<close> and
  \<open>string::replace_inplace\<close> are declared in mitsuba/core/string.h, which is not among the
  sources. \<open>to_lower\<close> lowercases (``Booleans accept only lowercased true or false''),
  \<open>starts_with\<close> tests for a prefix (``leading underscore''), and \<open>replace_inplace\<close>
  replaces every occurrence of a pattern from left to right (``substitute every \<open>$k\<close> with
  the matching parameter value'').
\<close>

definition isupper :: "char \<Rightarrow> bool" where
  "isupper c \<longleftrightarrow> c \<in> set ''ABCDEFGHIJKLMNOPQRSTUVWXYZ''"

definition islower :: "char \<Rightarrow> bool" where
  "islower c \<longleftrightarrow> c \<in> set ''abcdefghijklmnopqrstuvwxyz''"

definition isspace :: "char \<Rightarrow> bool" where
  "isspace c \<longleftrightarrow> c \<in> {CHR 0x20, CHR 0x09, CHR 0x0A, CHR 0x0B, CHR 0x0C, CHR 0x0D}"

definition tolower :: "char \<Rightarrow> char" where
  "tolower c =
     (case map_of (zip ''ABCDEFGHIJKLMNOPQRSTUVWXYZ'' ''abcdefghijklmnopqrstuvwxyz'') c of
        None \<Rightarrow> c
      | Some l \<Rightarrow> l)"

definition to_lower :: "string \<Rightarrow> string" where
  "to_lower s = map tolower s"

definition starts_with :: "string \<Rightarrow> string \<Rightarrow> bool" where
  "starts_with s p \<longleftrightarrow> take (length p) s = p"

function replace_inplace :: "string \<Rightarrow> string \<Rightarrow> string \<Rightarrow> string" where
  "replace_inplace str source target =
     (if source = [] \<or> str = [] then str
      else if take (length source) str = source
        then target @ replace_inplace (drop (length source) str) source target
      else hd str # replace_inplace (tl str) source target)"
  by pat_completeness auto
termination
  by (relation "measure (\<lambda>(str, source, target). length str)") auto

text \<open>\<open>std::to_string\<close> and the \<open>%i\<close> of \<open>tfm::format\<close> on a non-negative integer.\<close>

fun to_string :: "nat \<Rightarrow> string" where
  "to_string n =
     (if n < 10 then [''0123456789'' ! n]
      else to_string (n div 10) @ [''0123456789'' ! (n mod 10)])"

declare to_string.simps [simp del]

lemma to_string_digit: "n < 10 \<Longrightarrow> to_string n = [''0123456789'' ! n]"
  by (simp add: to_string.simps [of n])

lemma to_string_step:
  "10 \<le> n \<Longrightarrow> to_string n = to_string (n div 10) @ [''0123456789'' ! (n mod 10)]"
  by (simp add: to_string.simps [of n])

subsection \<open>What the loader takes from outside this file\<close>

type_synonym Vector3f = "real \<times> real \<times> real"

record Class =
  cls_name :: string
  cls_alias :: string
  cls_variant :: string

datatype ('m, 'o) pvalue =
    PBool bool
  | PLong "64 word"
  | PFloat real
  | PString string
  | PVector3f Vector3f
  | PPoint3f Vector3f
  | PColor Vector3f
  | PTransform 'm
  | PObject 'o
  | PNamedReference string
  | PPointer "real list"

text \<open>
  Modelled from the spec: the class \<open>Properties\<close> (mitsuba/core/properties.h) is not among
  the sources. It is ``a mapping from parameter name to a typed value, preserving
  insertion'', with a plugin name and an id (the field \<open>props_id\<close>); a setter replaces the
  value of a name that is present and appends a new name otherwise.
\<close>

record ('m, 'o) Properties =
  plugin_name :: string
  props_id :: string
  entries :: "(string \<times> ('m, 'o) pvalue) list"

definition Properties_new :: "string \<Rightarrow> ('m, 'o) Properties" where
  "Properties_new pn = \<lparr>plugin_name = pn, props_id = [], entries = []\<rparr>"

fun set_entry :: "string \<Rightarrow> 'v \<Rightarrow> (string \<times> 'v) list \<Rightarrow> (string \<times> 'v) list" where
  "set_entry k v [] = [(k, v)]"
| "set_entry k v ((k', v') # es) =
     (if k' = k then (k, v) # es else (k', v') # set_entry k v es)"

definition set_property ::
  "string \<Rightarrow> ('m, 'o) pvalue \<Rightarrow> ('m, 'o) Properties \<Rightarrow> ('m, 'o) Properties" where
  "set_property k v props = props\<lparr>entries := set_entry k v (entries props)\<rparr>"

definition named_references :: "('m, 'o) Properties \<Rightarrow> (string \<times> string) list" where
  "named_references props =
     concat (map (\<lambda>(k, v). case v of PNamedReference i \<Rightarrow> [(k, i)] | _ \<Rightarrow> []) (entries props))"

datatype node_type = node_element | node_comment | node_declaration | node_other

datatype xml_node =
  XNode (ntype: node_type) (node_name: string) (node_attributes: "(string \<times> string) list")
        (node_children: "xml_node list") (offset_debug: nat)

datatype include_result =
    FileNotFound string
  | FileLoadError string nat string
  | FileLoaded string xml_node

record ('m, 'o) env =
  tokenize :: "string \<Rightarrow> string \<Rightarrow> string list"
  default_delim :: string
  std_stof :: "string \<Rightarrow> (real \<times> nat) option"
  std_stoll :: "string \<Rightarrow> (64 word \<times> nat) option"
  std_stoul :: "string \<Rightarrow> nat option"
  float_to_string :: "real \<Rightarrow> string"
  MTS_VERSION :: Version
  MTS_XML_INCLUDE_MAX_RECURSION :: nat
  MTS_WAVELENGTH_MIN :: real
  MTS_WAVELENGTH_MAX :: real
  Epsilon :: real
  tags :: "string \<rightharpoonup> ETag"
  tag_class :: "string \<rightharpoonup> Class"
  load_include :: "string \<Rightarrow> include_result"
  tr_identity :: 'm
  tr_mul :: "'m \<Rightarrow> 'm \<Rightarrow> 'm"
  tr_translate :: "Vector3f \<Rightarrow> 'm"
  tr_rotate :: "Vector3f \<Rightarrow> real \<Rightarrow> 'm"
  tr_scale :: "Vector3f \<Rightarrow> 'm"
  tr_look_at :: "Vector3f \<Rightarrow> Vector3f \<Rightarrow> Vector3f \<Rightarrow> 'm"
  tr_matrix :: "real list \<Rightarrow> 'm"
  tr_isnan :: "'m \<Rightarrow> bool"
  class_for_name :: "string \<Rightarrow> string \<Rightarrow> Class"
  create_object :: "('m, 'o) Properties \<Rightarrow> Class \<Rightarrow> string + 'o"
  expand :: "'o \<Rightarrow> 'o list"
  luminance :: "Vector3f \<Rightarrow> real"
  cie1931_y :: "real \<Rightarrow> real"
  spectrum_eval :: "'o \<Rightarrow> real \<Rightarrow> real"

subsection \<open>Scalar parsers (namespace detail)\<close>

text \<open>\<open>check_whitespace_only\<close>: throws if a non-whitespace character follows the offset.\<close>

definition check_whitespace_only :: "string \<Rightarrow> nat \<Rightarrow> msg + unit" where
  "check_whitespace_only s offset =
     (if \<forall>c \<in> set (drop offset s). isspace c then Inr ()
      else Inl (TrailingCharacters s))"

definition stof :: "('m, 'o) env \<Rightarrow> string \<Rightarrow> msg + real" where
  "stof E s =
     (case std_stof E s of
        None \<Rightarrow> Inl StdInvalidArgument
      | Some (result, offset) \<Rightarrow>
          (case check_whitespace_only s offset of
             Inl e \<Rightarrow> Inl e
           | Inr _ \<Rightarrow> Inr result))"

definition stoll :: "('m, 'o) env \<Rightarrow> string \<Rightarrow> msg + 64 word" where
  "stoll E s =
     (case std_stoll E s of
        None \<Rightarrow> Inl StdInvalidArgument
      | Some (result, offset) \<Rightarrow>
          (case check_whitespace_only s offset of
             Inl e \<Rightarrow> Inl e
           | Inr _ \<Rightarrow> Inr result))"

subsection \<open>Attributes of a node\<close>

text \<open>
  \<open>node.attribute(k)\<close> is the first attribute of that name, or a null handle; the value of
  a null handle is the empty string.
\<close>

definition attribute :: "(string \<times> string) list \<Rightarrow> string \<Rightarrow> string option" where
  "attribute as k = map_of as k"

definition attr_value :: "(string \<times> string) list \<Rightarrow> string \<Rightarrow> string" where
  "attr_value as k = (case map_of as k of None \<Rightarrow> [] | Some v \<Rightarrow> v)"

definition has_attribute :: "(string \<times> string) list \<Rightarrow> string \<Rightarrow> bool" where
  "has_attribute as k \<longleftrightarrow> map_of as k \<noteq> None"

definition append_attribute ::
  "string \<Rightarrow> string \<Rightarrow> (string \<times> string) list \<Rightarrow> (string \<times> string) list" where
  "append_attribute k v as = as @ [(k, v)]"

fun remove_attribute :: "string \<Rightarrow> (string \<times> string) list \<Rightarrow> (string \<times> string) list" where
  "remove_attribute k [] = []"
| "remove_attribute k ((k', v) # as) =
     (if k' = k then as else (k', v) # remove_attribute k as)"

text \<open>
  \<open>check_attributes\<close>. The \<open>std::set\<close> of expected names is a list in the set's order
  (ascending), so that \<open>*attrs.begin()\<close> is its head.
\<close>

fun check_attributes_loop ::
  "string \<Rightarrow> (string \<times> string) list \<Rightarrow> string list \<Rightarrow> bool \<Rightarrow> msg + (string list \<times> bool)" where
  "check_attributes_loop nm [] attrs found_one = Inr (attrs, found_one)"
| "check_attributes_loop nm ((k, v) # as) attrs found_one =
     (if k \<notin> set attrs then Inl (UnexpectedAttribute k nm)
      else check_attributes_loop nm as (remove1 k attrs) True)"

definition check_attributes ::
  "string \<Rightarrow> (string \<times> string) list \<Rightarrow> string list \<Rightarrow> bool \<Rightarrow> msg + unit" where
  "check_attributes nm as attrs expect_all =
     (case check_attributes_loop nm as attrs False of
        Inl e \<Rightarrow> Inl e
      | Inr (attrs', found_one) \<Rightarrow>
          (if attrs' \<noteq> [] \<and> (\<not> found_one \<or> expect_all)
           then Inl (MissingAttribute (hd attrs') nm)
           else Inr ()))"

text \<open>\<open>expand_value_to_xyz\<close> splits the \<open>value\<close> attribute into \<open>x\<close>, \<open>y\<close>, \<open>z\<close>.\<close>

definition expand_value_to_xyz ::
  "('m, 'o) env \<Rightarrow> (string \<times> string) list \<Rightarrow> msg + (string \<times> string) list" where
  "expand_value_to_xyz E as =
     (if has_attribute as ''value'' then
        (let list = tokenize E (attr_value as ''value'') (default_delim E) in
         if has_attribute as ''x'' \<or> has_attribute as ''y'' \<or> has_attribute as ''z''
           then Inl MixValueXYZ
         else if length list = 1 then
           Inr (remove_attribute ''value''
                  (append_attribute ''z'' (list ! 0)
                    (append_attribute ''y'' (list ! 0)
                      (append_attribute ''x'' (list ! 0) as))))
         else if length list = 3 then
           Inr (remove_attribute ''value''
                  (append_attribute ''z'' (list ! 2)
                    (append_attribute ''y'' (list ! 1)
                      (append_attribute ''x'' (list ! 0) as))))
         else Inl ValueCount)
      else Inr as)"

definition parse_named_vector ::
  "('m, 'o) env \<Rightarrow> (string \<times> string) list \<Rightarrow> string \<Rightarrow> msg + Vector3f" where
  "parse_named_vector E as attr_name =
     (let vec_str = attr_value as attr_name;
          list = tokenize E vec_str (default_delim E) in
      if length list \<noteq> 3 then Inl (NamedVectorCount attr_name)
      else
        (case (stof E (list ! 0), stof E (list ! 1), stof E (list ! 2)) of
           (Inr x, Inr y, Inr z) \<Rightarrow> Inr (x, y, z)
         | _ \<Rightarrow> Inl (BadNamedVector vec_str)))"

text \<open>
  \<open>parse_vector\<close>: a component whose attribute is absent or empty keeps the default. The
  message names the value that was being parsed when the exception was thrown.
\<close>

definition parse_component :: "('m, 'o) env \<Rightarrow> string \<Rightarrow> real \<Rightarrow> msg + real" where
  "parse_component E v def_val =
     (if v = [] then Inr def_val
      else (case stof E v of Inl _ \<Rightarrow> Inl (BadFloat v) | Inr r \<Rightarrow> Inr r))"

definition parse_vector ::
  "('m, 'o) env \<Rightarrow> (string \<times> string) list \<Rightarrow> real \<Rightarrow> msg + Vector3f" where
  "parse_vector E as def_val =
     (case parse_component E (attr_value as ''x'') def_val of
        Inl e \<Rightarrow> Inl e
      | Inr x \<Rightarrow>
     (case parse_component E (attr_value as ''y'') def_val of
        Inl e \<Rightarrow> Inl e
      | Inr y \<Rightarrow>
     (case parse_component E (attr_value as ''z'') def_val of
        Inl e \<Rightarrow> Inl e
      | Inr z \<Rightarrow> Inr (x, y, z))))"

subsection \<open>The cases of parse-xml on property tags\<close>

text \<open>The value of a \<open>boolean\<close> element (case \<open>EBoolean\<close>).\<close>

definition parse_boolean :: "string \<Rightarrow> msg + bool" where
  "parse_boolean v =
     (let value = to_lower v in
      if value = ''true'' then Inr True
      else if value = ''false'' then Inr False
      else Inl (BadBoolean value))"

definition case_EBoolean ::
  "string \<Rightarrow> (string \<times> string) list \<Rightarrow> ('m, 'o) Properties \<Rightarrow> msg + ('m, 'o) Properties" where
  "case_EBoolean nm as props =
     (case check_attributes nm as [''name'', ''value''] True of
        Inl e \<Rightarrow> Inl e
      | Inr _ \<Rightarrow>
          (case parse_boolean (attr_value as ''value'') of
             Inl e \<Rightarrow> Inl e
           | Inr result \<Rightarrow> Inr (set_property (attr_value as ''name'') (PBool result) props)))"

definition case_EString ::
  "string \<Rightarrow> (string \<times> string) list \<Rightarrow> ('m, 'o) Properties \<Rightarrow> msg + ('m, 'o) Properties" where
  "case_EString nm as props =
     (case check_attributes nm as [''name'', ''value''] True of
        Inl e \<Rightarrow> Inl e
      | Inr _ \<Rightarrow> Inr (set_property (attr_value as ''name'') (PString (attr_value as ''value'')) props))"

definition case_EFloat ::
  "('m, 'o) env \<Rightarrow> string \<Rightarrow> (string \<times> string) list \<Rightarrow> ('m, 'o) Properties
     \<Rightarrow> msg + ('m, 'o) Properties" where
  "case_EFloat E nm as props =
     (case check_attributes nm as [''name'', ''value''] True of
        Inl e \<Rightarrow> Inl e
      | Inr _ \<Rightarrow>
          (let value = attr_value as ''value'' in
           case stof E value of
             Inl _ \<Rightarrow> Inl (BadFloat value)
           | Inr value_float \<Rightarrow>
               Inr (set_property (attr_value as ''name'') (PFloat value_float) props)))"

definition case_EInteger ::
  "('m, 'o) env \<Rightarrow> string \<Rightarrow> (string \<times> string) list \<Rightarrow> ('m, 'o) Properties
     \<Rightarrow> msg + ('m, 'o) Properties" where
  "case_EInteger E nm as props =
     (case check_attributes nm as [''name'', ''value''] True of
        Inl e \<Rightarrow> Inl e
      | Inr _ \<Rightarrow>
          (let value = attr_value as ''value'' in
           case stoll E value of
             Inl _ \<Rightarrow> Inl (BadInteger value)
           | Inr value_long \<Rightarrow>
               Inr (set_property (attr_value as ''name'') (PLong value_long) props)))"

definition case_EVector ::
  "('m, 'o) env \<Rightarrow> string \<Rightarrow> (string \<times> string) list \<Rightarrow> ('m, 'o) Properties
     \<Rightarrow> msg + ('m, 'o) Properties" where
  "case_EVector E nm as props =
     (case expand_value_to_xyz E as of
        Inl e \<Rightarrow> Inl e
      | Inr as' \<Rightarrow>
     (case check_attributes nm as' [''name'', ''x'', ''y'', ''z''] True of
        Inl e \<Rightarrow> Inl e
      | Inr _ \<Rightarrow>
     (case parse_vector E as' 0 of
        Inl e \<Rightarrow> Inl e
      | Inr vec \<Rightarrow> Inr (set_property (attr_value as' ''name'') (PVector3f vec) props))))"

definition case_EPoint ::
  "('m, 'o) env \<Rightarrow> string \<Rightarrow> (string \<times> string) list \<Rightarrow> ('m, 'o) Properties
     \<Rightarrow> msg + ('m, 'o) Properties" where
  "case_EPoint E nm as props =
     (case expand_value_to_xyz E as of
        Inl e \<Rightarrow> Inl e
      | Inr as' \<Rightarrow>
     (case check_attributes nm as' [''name'', ''x'', ''y'', ''z''] True of
        Inl e \<Rightarrow> Inl e
      | Inr _ \<Rightarrow>
     (case parse_vector E as' 0 of
        Inl e \<Rightarrow> Inl e
      | Inr vec \<Rightarrow> Inr (set_property (attr_value as' ''name'') (PPoint3f vec) props))))"

subsection \<open>The cases of parse-xml on transform operations\<close>

text \<open>
  The parse context. \<open>XMLObject\<close> is a descriptor of the table \<open>instances\<close>; its fields
  carry the prefix \<open>obj\<close> here (\<open>obj_props\<close> is \<open>props\<close>, \<open>obj_class\<close> is \<open>class_\<close>, and
  so on). The mutex of a descriptor is not modelled. The source reads a field
  \<open>ctx.monochrome\<close> that its declaration of \<open>XMLParseContext\<close> does not list; the model
  has it.
\<close>

record ('m, 'o) XMLObject =
  obj_props :: "('m, 'o) Properties"
  obj_class :: "Class option"
  obj_src_id :: string
  obj_alias :: string
  obj_location :: nat
  obj_object :: "'o option"

record ('m, 'o) XMLParseContext =
  instances :: "string \<rightharpoonup> ('m, 'o) XMLObject"
  transform :: 'm
  id_counter :: nat
  variant :: string
  monochrome :: bool

text \<open>
  Each transform operation multiplies its matrix onto the accumulator \<open>ctx.transform\<close> from
  the left: \<open>ctx.transform = Op * ctx.transform\<close>. For each tag, the first definition is
  the matrix \<open>Op\<close> that the case computes from the attributes, and the second is the case.
\<close>

definition rotate_operation ::
  "('m, 'o) env \<Rightarrow> string \<Rightarrow> (string \<times> string) list \<Rightarrow> msg + 'm" where
  "rotate_operation E nm as =
     (case expand_value_to_xyz E as of
        Inl e \<Rightarrow> Inl e
      | Inr as' \<Rightarrow>
     (case check_attributes nm as' [''angle'', ''x'', ''y'', ''z''] False of
        Inl e \<Rightarrow> Inl e
      | Inr _ \<Rightarrow>
     (case parse_vector E as' 0 of
        Inl e \<Rightarrow> Inl e
      | Inr vec \<Rightarrow>
          (let angle = attr_value as' ''angle'' in
           case stof E angle of
             Inl _ \<Rightarrow> Inl (BadFloat angle)
           | Inr angle_float \<Rightarrow> Inr (tr_rotate E vec angle_float)))))"

definition case_ERotate ::
  "('m, 'o) env \<Rightarrow> string \<Rightarrow> (string \<times> string) list \<Rightarrow> ('m, 'o) XMLParseContext
     \<Rightarrow> msg + ('m, 'o) XMLParseContext" where
  "case_ERotate E nm as ctx =
     (case rotate_operation E nm as of
        Inl e \<Rightarrow> Inl e
      | Inr Op \<Rightarrow> Inr (ctx\<lparr>transform := tr_mul E Op (transform ctx)\<rparr>))"

definition translate_operation ::
  "('m, 'o) env \<Rightarrow> string \<Rightarrow> (string \<times> string) list \<Rightarrow> msg + 'm" where
  "translate_operation E nm as =
     (case expand_value_to_xyz E as of
        Inl e \<Rightarrow> Inl e
      | Inr as' \<Rightarrow>
     (case check_attributes nm as' [''x'', ''y'', ''z''] False of
        Inl e \<Rightarrow> Inl e
      | Inr _ \<Rightarrow>
     (case parse_vector E as' 0 of
        Inl e \<Rightarrow> Inl e
      | Inr vec \<Rightarrow> Inr (tr_translate E vec))))"

definition case_ETranslate ::
  "('m, 'o) env \<Rightarrow> string \<Rightarrow> (string \<times> string) list \<Rightarrow> ('m, 'o) XMLParseContext
     \<Rightarrow> msg + ('m, 'o) XMLParseContext" where
  "case_ETranslate E nm as ctx =
     (case translate_operation E nm as of
        Inl e \<Rightarrow> Inl e
      | Inr Op \<Rightarrow> Inr (ctx\<lparr>transform := tr_mul E Op (transform ctx)\<rparr>))"

definition scale_operation ::
  "('m, 'o) env \<Rightarrow> string \<Rightarrow> (string \<times> string) list \<Rightarrow> msg + 'm" where
  "scale_operation E nm as =
     (case expand_value_to_xyz E as of
        Inl e \<Rightarrow> Inl e
      | Inr as' \<Rightarrow>
     (case check_attributes nm as' [''x'', ''y'', ''z''] False of
        Inl e \<Rightarrow> Inl e
      | Inr _ \<Rightarrow>
     (case parse_vector E as' 1 of
        Inl e \<Rightarrow> Inl e
      | Inr vec \<Rightarrow> Inr (tr_scale E vec))))"

definition case_EScale ::
  "('m, 'o) env \<Rightarrow> string \<Rightarrow> (string \<times> string) list \<Rightarrow> ('m, 'o) XMLParseContext
     \<Rightarrow> msg + ('m, 'o) XMLParseContext" where
  "case_EScale E nm as ctx =
     (case scale_operation E nm as of
        Inl e \<Rightarrow> Inl e
      | Inr Op \<Rightarrow> Inr (ctx\<lparr>transform := tr_mul E Op (transform ctx)\<rparr>))"

definition lookat_operation ::
  "('m, 'o) env \<Rightarrow> string \<Rightarrow> (string \<times> string) list \<Rightarrow> msg + 'm" where
  "lookat_operation E nm as =
     (case check_attributes nm as [''origin'', ''target'', ''up''] True of
        Inl e \<Rightarrow> Inl e
      | Inr _ \<Rightarrow>
     (case parse_named_vector E as ''origin'' of
        Inl e \<Rightarrow> Inl e
      | Inr origin \<Rightarrow>
     (case parse_named_vector E as ''target'' of
        Inl e \<Rightarrow> Inl e
      | Inr target \<Rightarrow>
     (case parse_named_vector E as ''up'' of
        Inl e \<Rightarrow> Inl e
      | Inr up \<Rightarrow>
          (let result = tr_look_at E origin target up in
           if tr_isnan E result then Inl InvalidLookat else Inr result)))))"

definition case_ELookAt ::
  "('m, 'o) env \<Rightarrow> string \<Rightarrow> (string \<times> string) list \<Rightarrow> ('m, 'o) XMLParseContext
     \<Rightarrow> msg + ('m, 'o) XMLParseContext" where
  "case_ELookAt E nm as ctx =
     (case lookat_operation E nm as of
        Inl e \<Rightarrow> Inl e
      | Inr Op \<Rightarrow> Inr (ctx\<lparr>transform := tr_mul E Op (transform ctx)\<rparr>))"

text \<open>
  The sixteen values of a \<open>matrix\<close> are parsed in row-major order; the first one that does
  not parse gives the message.
\<close>

fun stof_all :: "('m, 'o) env \<Rightarrow> string list \<Rightarrow> msg + real list" where
  "stof_all E [] = Inr []"
| "stof_all E (t # ts) =
     (case stof E t of
        Inl _ \<Rightarrow> Inl (BadFloat t)
      | Inr r \<Rightarrow> (case stof_all E ts of Inl e \<Rightarrow> Inl e | Inr rs \<Rightarrow> Inr (r # rs)))"

definition matrix_operation ::
  "('m, 'o) env \<Rightarrow> string \<Rightarrow> (string \<times> string) list \<Rightarrow> msg + 'm" where
  "matrix_operation E nm as =
     (case check_attributes nm as [''value''] True of
        Inl e \<Rightarrow> Inl e
      | Inr _ \<Rightarrow>
          (let tokens = tokenize E (attr_value as ''value'') (default_delim E) in
           if length tokens \<noteq> 16 then Inl MatrixCount
           else
             (case stof_all E tokens of
                Inl e \<Rightarrow> Inl e
              | Inr matrix \<Rightarrow> Inr (tr_matrix E matrix))))"

definition case_EMatrix ::
  "('m, 'o) env \<Rightarrow> string \<Rightarrow> (string \<times> string) list \<Rightarrow> ('m, 'o) XMLParseContext
     \<Rightarrow> msg + ('m, 'o) XMLParseContext" where
  "case_EMatrix E nm as ctx =
     (case matrix_operation E nm as of
        Inl e \<Rightarrow> Inl e
      | Inr Op \<Rightarrow> Inr (ctx\<lparr>transform := tr_mul E Op (transform ctx)\<rparr>))"

subsection \<open>Parameter substitution and default elements\<close>

type_synonym ParameterList = "(string \<times> string) list"

text \<open>
  The head of \<open>parse_xml\<close>: in every attribute value that contains a dollar sign, each
  parameter is replaced in turn, in the order of the parameter list.
\<close>

definition substitute_value :: "ParameterList \<Rightarrow> string \<Rightarrow> string" where
  "substitute_value param value =
     (if CHR ''$'' \<notin> set value then value
      else foldl (\<lambda>v kv. replace_inplace v (''$'' @ fst kv) (snd kv)) value param)"

definition substitute_attributes ::
  "ParameterList \<Rightarrow> (string \<times> string) list \<Rightarrow> (string \<times> string) list" where
  "substitute_attributes param as =
     (if param = [] then as else map (\<lambda>a. (fst a, substitute_value param (snd a))) as)"

text \<open>Case \<open>EDefault\<close>: the pair is appended unless the name is found in the list.\<close>

definition case_EDefault ::
  "string \<Rightarrow> (string \<times> string) list \<Rightarrow> ParameterList \<Rightarrow> msg + ParameterList" where
  "case_EDefault nm as param =
     (case check_attributes nm as [''name'', ''value''] True of
        Inl e \<Rightarrow> Inl e
      | Inr _ \<Rightarrow>
          (let name = attr_value as ''name'';
               value = attr_value as ''value'';
               found = list_ex (\<lambda>kv. fst kv = name) param
           in if name = [] then Inl DefaultNameEmpty
              else if \<not> found then Inr (param @ [(name, value)])
              else Inr param))"

subsection \<open>The upgrade of names from camelCase to underscore-case\<close>

text \<open>
  The loop of \<open>upgrade_tree\<close> over one \<open>name\<close> attribute. The index \<open>i\<close> and the length
  are \<open>size_t\<close>: the bound \<open>name.length() - 1\<close> is computed modulo \<open>2 ^ 64\<close>. Reading
  \<open>name[k]\<close> is defined for \<open>k \<le> name.length()\<close> (the position one past the end holds
  the terminating zero character) and undefined behaviour beyond; the model stops with
  \<open>UndefinedBehaviour\<close> at the first such read.
\<close>

definition char_at :: "string \<Rightarrow> nat \<Rightarrow> char" where
  "char_at name k = (if k < length name then name ! k else CHR 0x00)"

function lower_run :: "nat \<Rightarrow> string \<Rightarrow> nat \<times> string" where
  "lower_run i name =
     (if i < length name \<and> isupper (name ! i)
      then lower_run (i + 1) (name[i := tolower (name ! i)])
      else (i, name))"
  by pat_completeness auto
termination
  by (relation "measure (\<lambda>(i, name). length name - i)") auto

declare lower_run.simps [simp del]

lemma lower_run_bounds:
  "lower_run i name = (j, name') \<Longrightarrow> i \<le> j \<and> length name' = length name"
proof (induction i name arbitrary: j name' rule: lower_run.induct)
  case (1 i name)
  show ?case
  proof (cases "i < length name \<and> isupper (name ! i)")
    case True
    with "1.prems" have "lower_run (i + 1) (name[i := tolower (name ! i)]) = (j, name')"
      by (simp add: lower_run.simps [of i name])
    from "1.IH" [OF True this] show ?thesis by simp
  next
    case False
    with "1.prems" show ?thesis by (simp add: lower_run.simps [of i name])
  qed
qed

function camel_loop :: "nat \<Rightarrow> string \<Rightarrow> msg + string" where
  "camel_loop i name =
     (if i < (length name + 2 ^ 64 - 1) mod 2 ^ 64 then
        (if length name < i then Inl UndefinedBehaviour
         else if islower (char_at name i) then
           (if length name < i + 1 then Inl UndefinedBehaviour
            else if isupper (char_at name (i + 1)) then
              (case lower_run (i + 2) (take (i + 1) name @ ''_'' @ drop (i + 1) name) of
                 (j, name') \<Rightarrow> camel_loop (j + 1) name')
            else camel_loop (i + 1) name)
         else camel_loop (i + 1) name)
      else Inr name)"
  by pat_completeness auto
termination
proof (relation "measure (\<lambda>(i, name). length name + 2 - i)", simp_all, goal_cases)
  case (1 i name x y)
  from lower_run_bounds [OF "1"(5) [symmetric]] "1"(3)
  show ?case by simp arith
qed

declare camel_loop.simps [simp del]

definition camel_to_underscore :: "string \<Rightarrow> msg + string" where
  "camel_to_underscore name = camel_loop 0 name"

subsection \<open>Binding of expanded objects in instantiate-node\<close>

text \<open>
  The body of the loop of \<open>instantiate_node\<close> over the named references, after the referent
  \<open>obj\<close> was instantiated and \<open>children = obj->expand()\<close> was computed.
\<close>

fun bind_children ::
  "string \<Rightarrow> 'o list \<Rightarrow> 'o list \<Rightarrow> nat \<Rightarrow> ('m, 'o) Properties \<Rightarrow> ('m, 'o) Properties" where
  "bind_children k children [] ctr props = props"
| "bind_children k children (c # cs) ctr props =
     bind_children k children cs (ctr + 1)
       (set_property (k @ ''_'' @ to_string ctr) (PObject (children ! 0)) props)"

definition bind_expanded ::
  "string \<Rightarrow> 'o \<Rightarrow> 'o list \<Rightarrow> ('m, 'o) Properties \<Rightarrow> ('m, 'o) Properties" where
  "bind_expanded k obj children props =
     (if children = [] then set_property k (PObject obj) props
      else if length children = 1 then set_property k (PObject (children ! 0)) props
      else bind_children k children children 0 props)"

subsection \<open>The cases of parse-xml on colors and spectra\<close>

definition create_spectrum ::
  "('m, 'o) env \<Rightarrow> ('m, 'o) XMLParseContext \<Rightarrow> ('m, 'o) Properties \<Rightarrow> msg + 'o" where
  "create_spectrum E ctx props2 =
     (case create_object E props2 (class_for_name E ''spectrum'' (variant ctx)) of
        Inl what \<Rightarrow> Inl (PluginFailure what)
      | Inr obj \<Rightarrow> Inr obj)"

definition case_EColor ::
  "('m, 'o) env \<Rightarrow> ('m, 'o) XMLParseContext \<Rightarrow> string \<Rightarrow> (string \<times> string) list
     \<Rightarrow> ('m, 'o) Properties \<Rightarrow> msg + ('m, 'o) Properties" where
  "case_EColor E ctx nm as props =
     (case check_attributes nm as [''name'', ''value''] True of
        Inl e \<Rightarrow> Inl e
      | Inr _ \<Rightarrow>
          (let tokens = tokenize E (attr_value as ''value'') (default_delim E) in
           if length tokens \<noteq> 3 then Inl (ColorCount (attr_value as ''value''))
           else
             (case (stof E (tokens ! 0), stof E (tokens ! 1), stof E (tokens ! 2)) of
                (Inr r, Inr g, Inr b) \<Rightarrow>
                  (let col = (if monochrome ctx
                              then (luminance E (r, g, b), luminance E (r, g, b),
                                    luminance E (r, g, b))
                              else (r, g, b))
                   in Inr (set_property (attr_value as ''name'') (PColor col) props))
              | _ \<Rightarrow> Inl (BadColor (attr_value as ''value'')))))"

definition case_ERGB ::
  "('m, 'o) env \<Rightarrow> ('m, 'o) XMLParseContext \<Rightarrow> bool \<Rightarrow> string \<Rightarrow> (string \<times> string) list
     \<Rightarrow> ('m, 'o) Properties \<Rightarrow> msg + ('m, 'o) Properties" where
  "case_ERGB E ctx within_emitter nm as props =
     (case check_attributes nm as [''name'', ''value''] True of
        Inl e \<Rightarrow> Inl e
      | Inr _ \<Rightarrow>
          (let tokens0 = tokenize E (attr_value as ''value'') (default_delim E);
               tokens = (if length tokens0 = 1 then tokens0 @ [tokens0 ! 0, tokens0 ! 0]
                         else tokens0)
           in
           if length tokens \<noteq> 3 then Inl (RGBCount (attr_value as ''value''))
           else
             (case (stof E (tokens ! 0), stof E (tokens ! 1), stof E (tokens ! 2)) of
                (Inr r, Inr g, Inr b) \<Rightarrow>
                  (let props2 = set_property ''color'' (PColor (r, g, b))
                                  (Properties_new (if within_emitter then ''srgb_d65''
                                                   else ''srgb''))
                   in
                   if \<not> within_emitter \<and> (r < 0 \<or> r > 1 \<or> g < 0 \<or> g > 1 \<or> b < 0 \<or> b > 1)
                     then Inl RGBRange
                   else if \<not> monochrome ctx then
                     (case create_spectrum E ctx props2 of
                        Inl e \<Rightarrow> Inl e
                      | Inr obj \<Rightarrow> Inr (set_property (attr_value as ''name'') (PObject obj) props))
                   else
                     (let lum = luminance E (r, g, b);
                          props3 = set_property ''value'' (PFloat lum) (Properties_new ''uniform'')
                      in case create_spectrum E ctx props3 of
                           Inl e \<Rightarrow> Inl e
                         | Inr obj \<Rightarrow>
                             Inr (set_property (attr_value as ''name'') (PObject obj) props)))
              | _ \<Rightarrow> Inl (BadRGB (attr_value as ''value'')))))"

text \<open>
  Case \<open>ESpectrum\<close> on a list of \<open>wavelength:value\<close> pairs. \<open>parse_wavelength_pair\<close> is
  the head of the loop body, \<open>spectrum_step\<close> the whole body on the state
  \<open>(wavelengths, values, is_regular, interval)\<close>, \<open>spectrum_loop\<close> the loop, and
  \<open>spectrum_samples\<close> the loop from its initial state with the check that follows it.
\<close>

definition parse_wavelength_pair :: "('m, 'o) env \<Rightarrow> string \<Rightarrow> msg + (real \<times> real)" where
  "parse_wavelength_pair E token =
     (let pair = tokenize E token '':'' in
      if length pair \<noteq> 2 then Inl SpectrumPairExpected
      else
        (case (stof E (pair ! 0), stof E (pair ! 1)) of
           (Inr wavelength, Inr value) \<Rightarrow> Inr (wavelength, value)
         | _ \<Rightarrow> Inl (BadWavelengthPair token)))"

definition spectrum_step ::
  "('m, 'o) env \<Rightarrow> real \<Rightarrow> string \<Rightarrow> real list \<times> real list \<times> bool \<times> real
     \<Rightarrow> msg + (real list \<times> real list \<times> bool \<times> real)" where
  "spectrum_step E unit_conversion token st =
     (case st of (wavelengths0, values0, is_regular, interval) \<Rightarrow>
      (case parse_wavelength_pair E token of
         Inl e \<Rightarrow> Inl e
       | Inr (wavelength, value) \<Rightarrow>
           (let wavelengths = wavelengths0 @ [wavelength];
                values = values0 @ [value * unit_conversion];
                n = length wavelengths
            in
            if n \<le> 1 then Inr (wavelengths, values, is_regular, interval)
            else
              (let distance = wavelengths ! (n - 1) - wavelengths ! (n - 2) in
               if distance < 0 then Inl WavelengthOrder
               else if n = 2 then Inr (wavelengths, values, is_regular, distance)
               else if distance - interval > Epsilon E
                 then Inr (wavelengths, values, False, interval)
               else Inr (wavelengths, values, is_regular, interval)))))"

fun spectrum_loop ::
  "('m, 'o) env \<Rightarrow> real \<Rightarrow> string list \<Rightarrow> real list \<times> real list \<times> bool \<times> real
     \<Rightarrow> msg + (real list \<times> real list \<times> bool \<times> real)" where
  "spectrum_loop E unit_conversion [] st = Inr st"
| "spectrum_loop E unit_conversion (token # tokens) st =
     (case spectrum_step E unit_conversion token st of
        Inl e \<Rightarrow> Inl e
      | Inr st' \<Rightarrow> spectrum_loop E unit_conversion tokens st')"

definition spectrum_samples ::
  "('m, 'o) env \<Rightarrow> real \<Rightarrow> string list \<Rightarrow> msg + (real list \<times> real list)" where
  "spectrum_samples E unit_conversion tokens =
     (case spectrum_loop E unit_conversion tokens ([], [], True, 0) of
        Inl e \<Rightarrow> Inl e
      | Inr (wavelengths, values, is_regular, interval) \<Rightarrow>
          if \<not> is_regular then Inl IrregularSpectrum else Inr (wavelengths, values))"

text \<open>The sum of the monochrome mode, from \<open>wav\<close> up to \<open>MTS_WAVELENGTH_MAX\<close> in steps of 1.\<close>

function cie_y_sum :: "('m, 'o) env \<Rightarrow> 'o \<Rightarrow> real \<Rightarrow> real \<Rightarrow> real" where
  "cie_y_sum E spectrum wav average =
     (if wav \<le> MTS_WAVELENGTH_MAX E
      then cie_y_sum E spectrum (wav + 1)
             (average + cie1931_y E wav * spectrum_eval E spectrum wav)
      else average)"
  by pat_completeness auto
termination
  by (relation "measure (\<lambda>(E, spectrum, wav, average).
          nat (\<lfloor>MTS_WAVELENGTH_MAX E - wav\<rfloor> + 1))")
     (auto, linarith)

declare cie_y_sum.simps [simp del]

text \<open>
  The rest of the case: the \<open>interpolated\<close> spectrum is created from the samples; in
  monochrome mode it is then replaced by a \<open>uniform\<close> one. \<open>wavelengths.front()\<close> on an
  empty vector is undefined behaviour.
\<close>

definition interpolated_props :: "real list \<Rightarrow> real list \<Rightarrow> ('m, 'o) Properties" where
  "interpolated_props wavelengths values =
     set_property ''values'' (PPointer values)
       (set_property ''size'' (PLong (of_nat (length wavelengths)))
         (set_property ''lambda_max'' (PFloat (last wavelengths))
           (set_property ''lambda_min'' (PFloat (hd wavelengths))
             (Properties_new ''interpolated''))))"

definition spectrum_finish ::
  "('m, 'o) env \<Rightarrow> ('m, 'o) XMLParseContext \<Rightarrow> bool \<Rightarrow> string \<Rightarrow> real list \<Rightarrow> real list
     \<Rightarrow> ('m, 'o) Properties \<Rightarrow> msg + ('m, 'o) Properties" where
  "spectrum_finish E ctx within_emitter nm wavelengths values props =
     (if wavelengths = [] then Inl UndefinedBehaviour
      else
        (case create_spectrum E ctx (interpolated_props wavelengths values) of
           Inl e \<Rightarrow> Inl e
         | Inr obj \<Rightarrow>
             if \<not> monochrome ctx then Inr (set_property nm (PObject obj) props)
             else
               (let sum = cie_y_sum E obj (MTS_WAVELENGTH_MIN E) 0;
                    average = (if within_emitter
                               then sum / (MTS_WAVELENGTH_MAX E - MTS_WAVELENGTH_MIN E)
                               else sum * 0.0093583);
                    props2 = set_property ''value'' (PFloat average) (Properties_new ''uniform'')
                in case create_spectrum E ctx props2 of
                     Inl e \<Rightarrow> Inl e
                   | Inr obj2 \<Rightarrow> Inr (set_property nm (PObject obj2) props))))"

definition case_ESpectrum ::
  "('m, 'o) env \<Rightarrow> ('m, 'o) XMLParseContext \<Rightarrow> bool \<Rightarrow> string \<Rightarrow> (string \<times> string) list
     \<Rightarrow> ('m, 'o) Properties \<Rightarrow> msg + ('m, 'o) Properties" where
  "case_ESpectrum E ctx within_emitter nm as props =
     (case check_attributes nm as [''name'', ''value''] True of
        Inl e \<Rightarrow> Inl e
      | Inr _ \<Rightarrow>
          (let tokens = tokenize E (attr_value as ''value'') (default_delim E) in
           if length tokens = 1 then
             (case stof E (tokens ! 0) of
                Inl _ \<Rightarrow> Inl (BadConstantSpectrum (tokens ! 0))
              | Inr v \<Rightarrow>
                  (let props2 =
                         (if monochrome ctx
                          then set_property ''value''
                                 (PFloat (v / (MTS_WAVELENGTH_MAX E - MTS_WAVELENGTH_MIN E)))
                                 (Properties_new ''uniform'')
                          else set_property ''value'' (PFloat v)
                                 (Properties_new (if within_emitter then ''d65'' else ''uniform'')))
                   in case create_spectrum E ctx props2 of
                        Inl e \<Rightarrow> Inl e
                      | Inr obj \<Rightarrow>
                          (let expanded = expand E obj;
                               obj' = (if length expanded = 1 then expanded ! 0 else obj)
                           in Inr (set_property (attr_value as ''name'') (PObject obj') props))))
           else
             (case spectrum_samples E (if within_emitter then 100 / 10568 else 1) tokens of
                Inl e \<Rightarrow> Inl e
              | Inr (wavelengths, values) \<Rightarrow>
                  spectrum_finish E ctx within_emitter (attr_value as ''name'')
                    wavelengths values props)))"

subsection \<open>upgrade-tree\<close>

record XMLSource =
  src_id :: string
  src_depth :: nat
  src_modified :: bool

text \<open>The constructor \<open>Version(const char *)\<close>; the parts are stored as \<open>unsigned int\<close>.\<close>

definition Version_parse :: "('m, 'o) env \<Rightarrow> string \<Rightarrow> msg + Version" where
  "Version_parse E value =
     (let list = tokenize E value '' .'' in
      if length list \<noteq> 3 then Inl VersionParts
      else
        (case (std_stoul E (list ! 0), std_stoul E (list ! 1), std_stoul E (list ! 2)) of
           (Some a, Some b, Some c) \<Rightarrow>
             Inr \<lparr>major = of_nat a, minor = of_nat b, patch = of_nat c\<rparr>
         | _ \<Rightarrow> Inl StdInvalidArgument))"

text \<open>
  First step: every \<open>name\<close> attribute of every element (the XPath query \<open>//@name\<close>) is
  rewritten by \<open>camel_to_underscore\<close>.
\<close>

fun upgrade_name_attributes :: "(string \<times> string) list \<Rightarrow> msg + (string \<times> string) list" where
  "upgrade_name_attributes [] = Inr []"
| "upgrade_name_attributes ((k, v) # as) =
     (case (if k = ''name'' then camel_to_underscore v else Inr v) of
        Inl e \<Rightarrow> Inl e
      | Inr v' \<Rightarrow>
          (case upgrade_name_attributes as of
             Inl e \<Rightarrow> Inl e
           | Inr as' \<Rightarrow> Inr ((k, v') # as')))"

fun upgrade_names :: "xml_node \<Rightarrow> msg + xml_node"
  and upgrade_names_list :: "xml_node list \<Rightarrow> msg + xml_node list" where
  "upgrade_names (XNode ty nm as chs off) =
     (case (if ty = node_element then upgrade_name_attributes as else Inr as) of
        Inl e \<Rightarrow> Inl e
      | Inr as' \<Rightarrow>
          (case upgrade_names_list chs of
             Inl e \<Rightarrow> Inl e
           | Inr chs' \<Rightarrow> Inr (XNode ty nm as' chs' off)))"
| "upgrade_names_list [] = Inr []"
| "upgrade_names_list (c # cs) =
     (case upgrade_names c of
        Inl e \<Rightarrow> Inl e
      | Inr c' \<Rightarrow>
          (case upgrade_names_list cs of
             Inl e \<Rightarrow> Inl e
           | Inr cs' \<Rightarrow> Inr (c' # cs')))"

text \<open>Second step: every element named \<open>lookAt\<close> (the query \<open>//lookAt\<close>) is renamed.\<close>

fun rename_lookat :: "xml_node \<Rightarrow> xml_node" where
  "rename_lookat (XNode ty nm as chs off) =
     XNode ty (if ty = node_element \<and> nm = ''lookAt'' then ''lookat'' else nm) as
       (map rename_lookat chs) off"

text \<open>
  Third step: every node that has a child element \<open>float\<close> with a \<open>name\<close> attribute equal to
  \<open>uoffset\<close>, \<open>voffset\<close>, \<open>uscale\<close> or \<open>vscale\<close> loses the first such child of each name
  and gains a \<open>transform\<close> as its last child. \<open>select_float\<close> is
  \<open>n.select_node("float[@name='...']")\<close>. All four children are selected before the first
  is removed. The created nodes have no position in the source text; their offset is 0
  here. A node that the loop removes is not visited afterwards.
\<close>

definition select_float :: "string \<Rightarrow> xml_node list \<Rightarrow> xml_node option" where
  "select_float nm chs =
     find (\<lambda>c. ntype c = node_element \<and> node_name c = ''float''
                \<and> (''name'', nm) \<in> set (node_attributes c)) chs"

definition has_uv_float :: "xml_node list \<Rightarrow> bool" where
  "has_uv_float chs \<longleftrightarrow>
     select_float ''uoffset'' chs \<noteq> None \<or> select_float ''voffset'' chs \<noteq> None
     \<or> select_float ''uscale'' chs \<noteq> None \<or> select_float ''vscale'' chs \<noteq> None"

fun take_float ::
  "('m, 'o) env \<Rightarrow> xml_node option \<Rightarrow> real \<Rightarrow> xml_node list \<Rightarrow> msg + (real \<times> xml_node list)" where
  "take_float E None def_val chs = Inr (def_val, chs)"
| "take_float E (Some f) def_val chs =
     (case stof E (attr_value (node_attributes f) ''value'') of
        Inl e \<Rightarrow> Inl e
      | Inr v \<Rightarrow> Inr (v, remove1 f chs))"

definition to_uv_transform :: "('m, 'o) env \<Rightarrow> real \<times> real \<Rightarrow> real \<times> real \<Rightarrow> xml_node" where
  "to_uv_transform E offset scale =
     XNode node_element ''transform'' [(''name'', ''to_uv'')]
       ((if offset \<noteq> (0, 0)
         then [XNode node_element ''translate''
                 [(''x'', float_to_string E (fst offset)), (''y'', float_to_string E (snd offset))]
                 [] 0]
         else [])
        @ (if scale \<noteq> (1, 1)
           then [XNode node_element ''scale''
                   [(''x'', float_to_string E (fst scale)), (''y'', float_to_string E (snd scale))]
                   [] 0]
           else []))
       0"

definition upgrade_uv_children ::
  "('m, 'o) env \<Rightarrow> xml_node list \<Rightarrow> msg + (xml_node list \<times> xml_node)" where
  "upgrade_uv_children E chs =
     (let uoffset = select_float ''uoffset'' chs;
          voffset = select_float ''voffset'' chs;
          uscale = select_float ''uscale'' chs;
          vscale = select_float ''vscale'' chs
      in
      case take_float E uoffset 0 chs of
        Inl e \<Rightarrow> Inl e
      | Inr (offset_x, chs1) \<Rightarrow>
      (case take_float E voffset 0 chs1 of
        Inl e \<Rightarrow> Inl e
      | Inr (offset_y, chs2) \<Rightarrow>
      (case take_float E uscale 1 chs2 of
        Inl e \<Rightarrow> Inl e
      | Inr (scale_x, chs3) \<Rightarrow>
      (case take_float E vscale 1 chs3 of
        Inl e \<Rightarrow> Inl e
      | Inr (scale_y, chs4) \<Rightarrow>
          Inr (chs4, to_uv_transform E (offset_x, offset_y) (scale_x, scale_y))))))"

lemma size_remove1_le: "size_list size (remove1 f chs) \<le> size_list size chs"
  by (induction chs) auto

lemma take_float_size:
  "take_float E sel d chs = Inr (v, chs') \<Longrightarrow> size_list size chs' \<le> size_list size chs"
  by (cases sel) (auto split: sum.splits intro: size_remove1_le)

lemma upgrade_uv_children_size:
  assumes "upgrade_uv_children E chs = Inr (kept, trafo)"
  shows "size_list size kept \<le> size_list size chs"
proof -
  from assms obtain a1 c1 a2 c2 a3 c3 a4 where
    1: "take_float E (select_float ''uoffset'' chs) 0 chs = Inr (a1, c1)" and
    2: "take_float E (select_float ''voffset'' chs) 0 c1 = Inr (a2, c2)" and
    3: "take_float E (select_float ''uscale'' chs) 1 c2 = Inr (a3, c3)" and
    4: "take_float E (select_float ''vscale'' chs) 1 c3 = Inr (a4, kept)"
    by (auto simp: upgrade_uv_children_def Let_def split: sum.splits)
  from take_float_size [OF 1] take_float_size [OF 2] take_float_size [OF 3]
    take_float_size [OF 4]
  show ?thesis by linarith
qed

text \<open>
  The nodes are visited in document order; the children that stay are visited after their
  parent, and the new \<open>transform\<close> has no \<open>float\<close> child to be visited for.
\<close>

function upgrade_uv :: "('m, 'o) env \<Rightarrow> xml_node \<Rightarrow> msg + xml_node"
  and upgrade_uv_list :: "('m, 'o) env \<Rightarrow> xml_node list \<Rightarrow> msg + xml_node list" where
  "upgrade_uv E (XNode ty nm as chs off) =
     (if has_uv_float chs then
        (case upgrade_uv_children E chs of
           Inl e \<Rightarrow> Inl e
         | Inr (kept, trafo) \<Rightarrow>
             (case upgrade_uv_list E kept of
                Inl e \<Rightarrow> Inl e
              | Inr kept' \<Rightarrow> Inr (XNode ty nm as (kept' @ [trafo]) off)))
      else
        (case upgrade_uv_list E chs of
           Inl e \<Rightarrow> Inl e
         | Inr chs' \<Rightarrow> Inr (XNode ty nm as chs' off)))"
| "upgrade_uv_list E [] = Inr []"
| "upgrade_uv_list E (c # cs) =
     (case upgrade_uv E c of
        Inl e \<Rightarrow> Inl e
      | Inr c' \<Rightarrow>
          (case upgrade_uv_list E cs of
             Inl e \<Rightarrow> Inl e
           | Inr cs' \<Rightarrow> Inr (c' # cs')))"
  by pat_completeness auto
termination
proof (relation "measure (\<lambda>x. case x of Inl (E, n) \<Rightarrow> size n
                                       | Inr (E, ns) \<Rightarrow> size_list size ns)", goal_cases)
  case 1
  show ?case by simp
next
  case (2 E ty nm as chs off x kept trafo)
  then have "upgrade_uv_children E chs = Inr (kept, trafo)" by simp
  from upgrade_uv_children_size [OF this] show ?case by simp
qed simp_all

text \<open>
  \<open>upgrade_tree\<close>. The queries are absolute: they range over the whole document that
  holds \<open>node\<close>. The model rewrites the subtree of \<open>node\<close>, which is the whole document
  when \<open>node\<close> is its root element.
\<close>

definition upgrade_tree ::
  "('m, 'o) env \<Rightarrow> XMLSource \<Rightarrow> xml_node \<Rightarrow> Version \<Rightarrow> msg + (XMLSource \<times> xml_node)" where
  "upgrade_tree E src node version =
     (if version = MTS_VERSION E then Inr (src, node)
      else if Version_lt version \<lparr>major = 2, minor = 0, patch = 0\<rparr> then
        (case upgrade_names node of
           Inl e \<Rightarrow> Inl e
         | Inr node1 \<Rightarrow>
             (case upgrade_uv E (rename_lookat node1) of
                Inl e \<Rightarrow> Inl e
              | Inr node2 \<Rightarrow> Inr (src\<lparr>src_modified := True\<rparr>, node2)))
      else Inr (src\<lparr>src_modified := True\<rparr>, node))"

subsection \<open>The tag registry\<close>

text \<open>
  Modelled from the spec: \<open>Class::construct_key\<close> (mitsuba/core/class.h) is not among the
  sources. The registry is ``a map from \<open>(tag_name, variant)\<close> to an external class
  handle''; the key joins the two by a dot, as the comment at the declaration of
  \<open>tag_class\<close> shows (\<open>bsdf.scalar-rgb\<close>).
\<close>

definition construct_key :: "string \<Rightarrow> string \<Rightarrow> string" where
  "construct_key nm v = nm @ ''.'' @ v"

definition initial_tags :: "string \<rightharpoonup> ETag" where
  "initial_tags =
     map_of [(''boolean'', EBoolean), (''integer'', EInteger), (''float'', EFloat),
             (''string'', EString), (''point'', EPoint), (''vector'', EVector),
             (''transform'', ETransform), (''translate'', ETranslate), (''matrix'', EMatrix),
             (''rotate'', ERotate), (''scale'', EScale), (''lookat'', ELookAt),
             (''ref'', ENamedReference), (''spectrum'', ESpectrum), (''rgb'', ERGB),
             (''color'', EColor), (''include'', EInclude), (''alias'', EAlias),
             (''default'', EDefault)]"

text \<open>
  \<open>register_class\<close> on the pair of the two tables; the first call of the source creates
  them as \<open>(initial_tags, Map.empty)\<close>.
\<close>

definition register_class ::
  "Class \<Rightarrow> (string \<rightharpoonup> ETag) \<times> (string \<rightharpoonup> Class) \<Rightarrow> (string \<rightharpoonup> ETag) \<times> (string \<rightharpoonup> Class)" where
  "register_class cls reg =
     (case reg of (tags0, tag_class0) \<Rightarrow>
      (let tag_name = cls_alias cls;
           tag_key = construct_key tag_name (cls_variant cls);
           reg1 = (case tags0 tag_name of
                     None \<Rightarrow> (tags0(tag_name \<mapsto> EObject), tag_class0(tag_key \<mapsto> cls))
                   | Some t \<Rightarrow> if t \<noteq> EObject then (tags0, tag_class0(tag_key \<mapsto> cls))
                              else (tags0, tag_class0))
       in if tag_name = ''spectrum''
          then ((fst reg1)(''texture'' \<mapsto> EObject),
                (snd reg1)(construct_key ''texture'' (cls_variant cls) \<mapsto> cls))
          else reg1))"

subsection \<open>parse-xml: the checks before the switch\<close>

definition set_attributes :: "(string \<times> string) list \<Rightarrow> xml_node \<Rightarrow> xml_node" where
  "set_attributes as n = XNode (ntype n) (node_name n) as (node_children n) (offset_debug n)"

definition is_transform_op :: "ETag \<Rightarrow> bool" where
  "is_transform_op tag \<longleftrightarrow>
     tag = ETranslate \<or> tag = ERotate \<or> tag = EScale \<or> tag = ELookAt \<or> tag = EMatrix"

definition check_structure :: "string \<Rightarrow> ETag \<Rightarrow> ETag \<Rightarrow> msg + unit" where
  "check_structure nm parent_tag tag =
     (let has_parent = parent_tag \<noteq> EInvalid;
          parent_is_object = has_parent \<and> parent_tag = EObject;
          current_is_object = tag = EObject;
          parent_is_transform = parent_tag = ETransform;
          current_is_transform_op = is_transform_op tag
      in
      if \<not> has_parent \<and> \<not> current_is_object then Inl (RootNotObject nm)
      else if parent_is_transform \<noteq> current_is_transform_op then
        (if parent_is_transform then Inl TransformOnlyOps else Inl OpsOnlyInTransform)
      else if has_parent \<and> \<not> parent_is_object
              \<and> \<not> (parent_is_transform \<and> current_is_transform_op)
        then Inl (ChildOfProperty nm)
      else Inr ())"

text \<open>
  The version check and the upgrade. \<open>src.modified\<close> is threaded through the parser as a
  component of its state (\<open>modified\<close>); \<open>src\<close> gives the id and the include depth.
\<close>

definition handle_version ::
  "('m, 'o) env \<Rightarrow> XMLSource \<Rightarrow> bool \<Rightarrow> xml_node \<Rightarrow> nat \<Rightarrow> msg + (bool \<times> xml_node)" where
  "handle_version E src modified node depth =
     (let as = node_attributes node in
      if depth = 0 \<and> \<not> has_attribute as ''version'' then Inl (MissingVersion (node_name node))
      else if has_attribute as ''version'' then
        (case Version_parse E (attr_value as ''version'') of
           Inl _ \<Rightarrow> Inl (BadVersion (attr_value as ''version''))
         | Inr version \<Rightarrow>
             (case upgrade_tree E (src\<lparr>src_modified := modified\<rparr>) node version of
                Inl e \<Rightarrow> Inl e
              | Inr (src', node1) \<Rightarrow>
                  Inr (src_modified src',
                       set_attributes (remove_attribute ''version'' (node_attributes node1))
                         node1)))
      else Inr (modified, node))"

definition synthesize_name ::
  "bool \<Rightarrow> string \<Rightarrow> (string \<times> string) list \<Rightarrow> nat \<Rightarrow> msg + ((string \<times> string) list \<times> nat)" where
  "synthesize_name wanted nm as arg_counter =
     (if has_attribute as ''name'' then
        (if starts_with (attr_value as ''name'') ''_''
         then Inl (InvalidName (attr_value as ''name'') nm)
         else Inr (as, arg_counter))
      else if wanted
        then Inr (append_attribute ''name'' (''_arg_'' @ to_string arg_counter) as,
                  arg_counter + 1)
      else Inr (as, arg_counter))"

definition synthesize_id ::
  "bool \<Rightarrow> string \<Rightarrow> (string \<times> string) list \<Rightarrow> nat \<Rightarrow> msg + ((string \<times> string) list \<times> nat)" where
  "synthesize_id wanted nm as counter =
     (if has_attribute as ''id'' then
        (if starts_with (attr_value as ''id'') ''_''
         then Inl (InvalidId (attr_value as ''id'') nm)
         else Inr (as, counter))
      else if wanted
        then Inr (append_attribute ''id'' (''_unnamed_'' @ to_string counter) as, counter + 1)
      else Inr (as, counter))"

text \<open>
  \<open>parse_head\<close> is \<open>parse_xml\<close> from its first line to the switch. The result \<open>None\<close> is
  the early return on a comment or a declaration; otherwise it is the tag, the node as the
  code has edited it, the flag \<open>src.modified\<close>, the context and the argument counter.
\<close>

definition parse_head ::
  "('m, 'o) env \<Rightarrow> XMLSource \<Rightarrow> bool \<Rightarrow> ('m, 'o) XMLParseContext \<Rightarrow> xml_node \<Rightarrow> ETag
     \<Rightarrow> ParameterList \<Rightarrow> nat \<Rightarrow> nat
     \<Rightarrow> msg + (ETag \<times> xml_node \<times> bool \<times> ('m, 'o) XMLParseContext \<times> nat) option" where
  "parse_head E src modified ctx node parent_tag param arg_counter depth =
     (let node0 = set_attributes (substitute_attributes param (node_attributes node)) node in
      if ntype node = node_comment \<or> ntype node = node_declaration then Inr None
      else if ntype node \<noteq> node_element then Inl UnexpectedContent
      else
        (case tags E (node_name node) of
           None \<Rightarrow> Inl (UnexpectedTag (node_name node))
         | Some tag0 \<Rightarrow>
             (let tag = (if has_attribute (node_attributes node0) ''type'' \<and> tag0 \<noteq> EObject
                            \<and> tag_class E (construct_key (node_name node) (variant ctx)) \<noteq> None
                         then EObject else tag0)
              in
              case check_structure (node_name node) parent_tag tag of
                Inl e \<Rightarrow> Inl e
              | Inr _ \<Rightarrow>
              (case handle_version E src modified node0 depth of
                Inl e \<Rightarrow> Inl e
              | Inr (modified', node1) \<Rightarrow>
                  (let as2 = (if node_name node1 = ''scene''
                              then append_attribute ''type'' ''scene'' (node_attributes node1)
                              else node_attributes node1);
                       ctx1 = (if node_name node1 \<noteq> ''scene'' \<and> tag = ETransform
                               then ctx\<lparr>transform := tr_identity E\<rparr> else ctx)
                   in
                   case synthesize_name (tag = EObject \<or> tag = ENamedReference)
                          (node_name node1) as2 arg_counter of
                     Inl e \<Rightarrow> Inl e
                   | Inr (as3, arg_counter') \<Rightarrow>
                   (case synthesize_id (tag = EObject) (node_name node1) as3 (id_counter ctx1) of
                     Inl e \<Rightarrow> Inl e
                   | Inr (as4, id_counter') \<Rightarrow>
                       Inr (Some (tag, set_attributes as4 node1, modified',
                                  ctx1\<lparr>id_counter := id_counter'\<rparr>, arg_counter'))))))))"

subsection \<open>parse-xml: the cases without recursion\<close>

definition XMLObject_new :: "('m, 'o) XMLObject" where
  "XMLObject_new =
     \<lparr>obj_props = Properties_new [], obj_class = None, obj_src_id = [], obj_alias = [],
      obj_location = 0, obj_object = None\<rparr>"

text \<open>
  Case \<open>EObject\<close> before its loop over the children: the attributes, the duplicate check
  and the class; the result is the id, the name and the class. After the loop,
  \<open>object_end\<close> stores the descriptor under the id.
\<close>

definition object_begin ::
  "('m, 'o) env \<Rightarrow> ('m, 'o) XMLParseContext \<Rightarrow> xml_node \<Rightarrow> msg + (string \<times> string \<times> Class)" where
  "object_begin E ctx node =
     (let as = node_attributes node; nm = node_name node in
      case check_attributes nm as [''id'', ''name'', ''type''] True of
        Inl e \<Rightarrow> Inl e
      | Inr _ \<Rightarrow>
          (let object_id = attr_value as ''id''; name = attr_value as ''name'' in
           case instances ctx object_id of
             Some it_inst \<Rightarrow> Inl (DuplicateId nm object_id (obj_location it_inst))
           | None \<Rightarrow>
               (case tag_class E (construct_key nm (variant ctx)) of
                  None \<Rightarrow> Inl (NoClassForTag nm)
                | Some cls \<Rightarrow> Inr (object_id, name, cls))))"

definition object_end ::
  "('m, 'o) XMLParseContext \<Rightarrow> string \<Rightarrow> ('m, 'o) Properties \<Rightarrow> Class \<Rightarrow> XMLSource \<Rightarrow> xml_node
     \<Rightarrow> ('m, 'o) XMLParseContext" where
  "object_end ctx object_id props_nested cls src node =
     ctx\<lparr>instances := (instances ctx)(object_id \<mapsto>
        (case instances ctx object_id of None \<Rightarrow> XMLObject_new | Some inst \<Rightarrow> inst)
          \<lparr>obj_props := props_nested, obj_class := Some cls, obj_src_id := src_id src,
           obj_location := offset_debug node\<rparr>)\<rparr>"

definition case_ENamedReference ::
  "string \<Rightarrow> (string \<times> string) list \<Rightarrow> msg + (string \<times> string)" where
  "case_ENamedReference nm as =
     (case check_attributes nm as [''id'', ''name''] True of
        Inl e \<Rightarrow> Inl e
      | Inr _ \<Rightarrow> Inr (attr_value as ''name'', attr_value as ''id''))"

definition case_EAlias ::
  "XMLSource \<Rightarrow> ('m, 'o) XMLParseContext \<Rightarrow> xml_node \<Rightarrow> msg + ('m, 'o) XMLParseContext" where
  "case_EAlias src ctx node =
     (let as = node_attributes node; nm = node_name node in
      case check_attributes nm as [''as'', ''id''] True of
        Inl e \<Rightarrow> Inl e
      | Inr _ \<Rightarrow>
          (let alias_src = attr_value as ''id''; alias_dst = attr_value as ''as'' in
           case instances ctx alias_dst of
             Some it_alias_dst \<Rightarrow> Inl (DuplicateId nm alias_dst (obj_location it_alias_dst))
           | None \<Rightarrow>
               (case instances ctx alias_src of
                  None \<Rightarrow> Inl (ReferencedIdNotFound alias_src)
                | Some _ \<Rightarrow>
                    Inr (ctx\<lparr>instances := (instances ctx)(alias_dst \<mapsto>
                           XMLObject_new\<lparr>obj_alias := alias_src, obj_src_id := src_id src,
                                          obj_location := offset_debug node\<rparr>)\<rparr>))))"

text \<open>
  Case \<open>EInclude\<close> before the included document is parsed: the file is resolved and loaded,
  and the source of the included document is one level deeper.
\<close>

definition include_begin ::
  "('m, 'o) env \<Rightarrow> XMLSource \<Rightarrow> xml_node \<Rightarrow> msg + (XMLSource \<times> xml_node)" where
  "include_begin E src node =
     (case check_attributes (node_name node) (node_attributes node) [''filename''] True of
        Inl e \<Rightarrow> Inl e
      | Inr _ \<Rightarrow>
          (case load_include E (attr_value (node_attributes node) ''filename'') of
             FileNotFound filename \<Rightarrow> Inl (IncludeNotFound filename)
           | FileLoadError filename pos description \<Rightarrow>
               if src_depth src + 1 > MTS_XML_INCLUDE_MAX_RECURSION E
               then Inl IncludeRecursionLimit
               else Inl (IncludeLoadError filename pos description)
           | FileLoaded filename root_node \<Rightarrow>
               if src_depth src + 1 > MTS_XML_INCLUDE_MAX_RECURSION E
               then Inl IncludeRecursionLimit
               else Inr (\<lparr>src_id = filename, src_depth = src_depth src + 1,
                          src_modified = False\<rparr>, root_node)))"

text \<open>The cases of the switch that set a property or multiply a transform.\<close>

definition with_ctx :: "'c \<Rightarrow> msg + 'p \<Rightarrow> msg + ('c \<times> 'p)" where
  "with_ctx ctx r = (case r of Inl e \<Rightarrow> Inl e | Inr props \<Rightarrow> Inr (ctx, props))"

definition with_props :: "'p \<Rightarrow> msg + 'c \<Rightarrow> msg + ('c \<times> 'p)" where
  "with_props props r = (case r of Inl e \<Rightarrow> Inl e | Inr ctx \<Rightarrow> Inr (ctx, props))"

definition property_case ::
  "('m, 'o) env \<Rightarrow> ETag \<Rightarrow> ('m, 'o) XMLParseContext \<Rightarrow> bool \<Rightarrow> string
     \<Rightarrow> (string \<times> string) list \<Rightarrow> ('m, 'o) Properties
     \<Rightarrow> msg + (('m, 'o) XMLParseContext \<times> ('m, 'o) Properties)" where
  "property_case E tag ctx within_emitter nm as props =
     (case tag of
        EString \<Rightarrow> with_ctx ctx (case_EString nm as props)
      | EFloat \<Rightarrow> with_ctx ctx (case_EFloat E nm as props)
      | EInteger \<Rightarrow> with_ctx ctx (case_EInteger E nm as props)
      | EBoolean \<Rightarrow> with_ctx ctx (case_EBoolean nm as props)
      | EVector \<Rightarrow> with_ctx ctx (case_EVector E nm as props)
      | EPoint \<Rightarrow> with_ctx ctx (case_EPoint E nm as props)
      | EColor \<Rightarrow> with_ctx ctx (case_EColor E ctx nm as props)
      | ERGB \<Rightarrow> with_ctx ctx (case_ERGB E ctx within_emitter nm as props)
      | ESpectrum \<Rightarrow> with_ctx ctx (case_ESpectrum E ctx within_emitter nm as props)
      | ETransform \<Rightarrow>
          (case check_attributes nm as [''name''] True of
             Inl e \<Rightarrow> Inl e
           | Inr _ \<Rightarrow> Inr (ctx\<lparr>transform := tr_identity E\<rparr>, props))
      | ERotate \<Rightarrow> with_props props (case_ERotate E nm as ctx)
      | ETranslate \<Rightarrow> with_props props (case_ETranslate E nm as ctx)
      | EScale \<Rightarrow> with_props props (case_EScale E nm as ctx)
      | ELookAt \<Rightarrow> with_props props (case_ELookAt E nm as ctx)
      | EMatrix \<Rightarrow> with_props props (case_EMatrix E nm as ctx)
      | _ \<Rightarrow> Inl (UnhandledElement nm))"

subsection \<open>parse-xml\<close>

text \<open>
  The number of attributes named \<open>version\<close> in a subtree. Every upgrade is followed by the
  removal of the \<open>version\<close> attribute that caused it, and an upgrade adds none; this is
  why the recursion of \<open>parse_xml\<close> ends although an upgrade can make the tree larger.
\<close>

fun versions :: "xml_node \<Rightarrow> nat" where
  "versions (XNode ty nm as chs off) =
     length (filter (\<lambda>a. fst a = ''version'') as) + sum_list (map versions chs)"

text \<open>
  The facts about \<open>versions\<close> that the termination proof of \<open>parse_xml\<close> needs: no step
  of the upgrade adds a \<open>version\<close> attribute, and \<open>parse_head\<close> either removes one or
  leaves the node with the children it had.
\<close>

lemma own_versions_keys:
  "map fst as' = map fst as \<Longrightarrow>
     length (filter (\<lambda>a. fst a = ''version'') as') = length (filter (\<lambda>a. fst a = ''version'') as)"
  by (induction as arbitrary: as') (auto simp: map_eq_Cons_conv)

lemma upgrade_name_attributes_keys:
  "upgrade_name_attributes as = Inr as' \<Longrightarrow> map fst as' = map fst as"
  by (induction as arbitrary: as') (auto split: sum.splits if_splits)

lemma versions_upgrade_names:
  "(upgrade_names n = Inr n' \<longrightarrow>
      versions n' = versions n \<and> map fst (node_attributes n') = map fst (node_attributes n))"
  "(upgrade_names_list cs = Inr cs' \<longrightarrow>
      sum_list (map versions cs') = sum_list (map versions cs))"
proof (induction n and cs arbitrary: n' and cs' rule: upgrade_names_upgrade_names_list.induct)
  case (1 ty nm as chs off)
  show ?case
  proof
    assume h: "upgrade_names (XNode ty nm as chs off) = Inr n'"
    then obtain as' chs' where
      a: "(if ty = node_element then upgrade_name_attributes as else Inr as) = Inr as'" and
      c: "upgrade_names_list chs = Inr chs'" and n': "n' = XNode ty nm as' chs' off"
      by (auto split: sum.splits)
    from a have k: "map fst as' = map fst as"
      by (auto split: if_splits dest: upgrade_name_attributes_keys)
    from "1.IH" [OF a] c have "sum_list (map versions chs') = sum_list (map versions chs)"
      by simp
    with k n' own_versions_keys [OF k]
    show "versions n' = versions (XNode ty nm as chs off)
        \<and> map fst (node_attributes n') = map fst (node_attributes (XNode ty nm as chs off))"
      by simp
  qed
next
  case 2
  show ?case by simp
next
  case (3 c cs)
  show ?case
  proof
    assume "upgrade_names_list (c # cs) = Inr cs'"
    then obtain c' cs'' where c: "upgrade_names c = Inr c'"
      and cs: "upgrade_names_list cs = Inr cs''" and e: "cs' = c' # cs''"
      by (auto split: sum.splits)
    from "3.IH"(1) c have "versions c' = versions c" by simp
    moreover from "3.IH"(2) [OF c] cs
    have "sum_list (map versions cs'') = sum_list (map versions cs)" by simp
    ultimately show "sum_list (map versions cs') = sum_list (map versions (c # cs))"
      using e by simp
  qed
qed

lemma versions_rename_lookat:
  "versions (rename_lookat n) = versions n"
proof (induction n rule: rename_lookat.induct)
  case (1 ty nm as chs off)
  then have "(\<Sum>x\<leftarrow>chs. versions (rename_lookat x)) = sum_list (map versions chs)"
    by (induction chs) auto
  then show ?case by (simp add: comp_def)
qed

lemma attributes_rename_lookat:
  "node_attributes (rename_lookat n) = node_attributes n"
  by (cases n) simp

lemma versions_remove1: "sum_list (map versions (remove1 f chs)) \<le> sum_list (map versions chs)"
  by (induction chs) auto

lemma take_float_versions:
  "take_float E sel d chs = Inr (v, chs') \<Longrightarrow>
     sum_list (map versions chs') \<le> sum_list (map versions chs)"
  by (cases sel) (auto split: sum.splits intro: versions_remove1)

lemma upgrade_uv_children_versions:
  assumes "upgrade_uv_children E chs = Inr (kept, trafo)"
  shows "sum_list (map versions kept) \<le> sum_list (map versions chs) \<and> versions trafo = 0"
proof -
  from assms obtain a1 c1 a2 c2 a3 c3 a4 where
    1: "take_float E (select_float ''uoffset'' chs) 0 chs = Inr (a1, c1)" and
    2: "take_float E (select_float ''voffset'' chs) 0 c1 = Inr (a2, c2)" and
    3: "take_float E (select_float ''uscale'' chs) 1 c2 = Inr (a3, c3)" and
    4: "take_float E (select_float ''vscale'' chs) 1 c3 = Inr (a4, kept)" and
    5: "trafo = to_uv_transform E (a1, a2) (a3, a4)"
    by (auto simp: upgrade_uv_children_def Let_def split: sum.splits)
  from take_float_versions [OF 1] take_float_versions [OF 2] take_float_versions [OF 3]
    take_float_versions [OF 4]
  have "sum_list (map versions kept) \<le> sum_list (map versions chs)" by linarith
  moreover from 5 have "versions trafo = 0" by (simp add: to_uv_transform_def)
  ultimately show ?thesis ..
qed

lemma versions_upgrade_uv:
  "(upgrade_uv E n = Inr n' \<longrightarrow>
      versions n' \<le> versions n \<and> node_attributes n' = node_attributes n)"
  "(upgrade_uv_list E cs = Inr cs' \<longrightarrow>
      sum_list (map versions cs') \<le> sum_list (map versions cs))"
proof (induction E n and E cs arbitrary: n' and cs' rule: upgrade_uv_upgrade_uv_list.induct)
  case (1 E ty nm as chs off)
  show ?case
  proof
    assume h: "upgrade_uv E (XNode ty nm as chs off) = Inr n'"
    show "versions n' \<le> versions (XNode ty nm as chs off)
        \<and> node_attributes n' = node_attributes (XNode ty nm as chs off)"
    proof (cases "has_uv_float chs")
      case True
      with h obtain kept trafo kept' where
        ch: "upgrade_uv_children E chs = Inr (kept, trafo)" and
        ls: "upgrade_uv_list E kept = Inr kept'" and
        n': "n' = XNode ty nm as (kept' @ [trafo]) off"
        by (auto split: sum.splits)
      from "1.IH"(1) [OF True ch refl] ls
      have "sum_list (map versions kept') \<le> sum_list (map versions kept)" by simp
      with upgrade_uv_children_versions [OF ch] n' show ?thesis by simp
    next
      case False
      with h obtain chs' where ls: "upgrade_uv_list E chs = Inr chs'"
        and n': "n' = XNode ty nm as chs' off"
        by (auto split: sum.splits)
      from "1.IH"(2) [OF False] ls
      have "sum_list (map versions chs') \<le> sum_list (map versions chs)" by simp
      with n' show ?thesis by simp
    qed
  qed
next
  case (2 E)
  show ?case by simp
next
  case (3 E c cs)
  show ?case
  proof
    assume "upgrade_uv_list E (c # cs) = Inr cs'"
    then obtain c' cs'' where c: "upgrade_uv E c = Inr c'"
      and cs: "upgrade_uv_list E cs = Inr cs''" and e: "cs' = c' # cs''"
      by (auto split: sum.splits)
    from "3.IH"(1) c have "versions c' \<le> versions c" by simp
    moreover from "3.IH"(2) [OF c] cs
    have "sum_list (map versions cs'') \<le> sum_list (map versions cs)" by simp
    ultimately show "sum_list (map versions cs') \<le> sum_list (map versions (c # cs))"
      using e by simp
  qed
qed

lemma versions_upgrade_tree:
  assumes "upgrade_tree E src node version = Inr (src', node')"
  shows "versions node' \<le> versions node
     \<and> map fst (node_attributes node') = map fst (node_attributes node)"
proof (cases "version \<noteq> MTS_VERSION E
               \<and> Version_lt version \<lparr>major = 2, minor = 0, patch = 0\<rparr>")
  case False
  with assms show ?thesis
    by (auto simp: upgrade_tree_def split: if_splits)
next
  case True
  with assms obtain node1 where 1: "upgrade_names node = Inr node1"
    and 2: "upgrade_uv E (rename_lookat node1) = Inr node'"
    by (auto simp: upgrade_tree_def split: sum.splits)
  from versions_upgrade_names(1) [of node node1] 1
  have a: "versions node1 = versions node"
    "map fst (node_attributes node1) = map fst (node_attributes node)" by simp_all
  from versions_upgrade_uv(1) [of E "rename_lookat node1" node'] 2
  have b: "versions node' \<le> versions (rename_lookat node1)"
    "node_attributes node' = node_attributes (rename_lookat node1)" by simp_all
  from a b show ?thesis
    by (simp add: versions_rename_lookat attributes_rename_lookat)
qed

lemma versions_node:
  "versions n = length (filter (\<lambda>a. fst a = ''version'') (node_attributes n))
                 + sum_list (map versions (node_children n))"
  by (cases n) simp

lemma has_version_own:
  "has_attribute as ''version'' \<Longrightarrow> 0 < length (filter (\<lambda>a. fst a = ''version'') as)"
  by (induction as) (auto simp: has_attribute_def split: if_splits)

lemma size_children: "size_list size (node_children n) < size n"
  by (cases n) simp

lemma handle_version_children:
  assumes "handle_version E src modified node0 depth = Inr (modified', node1)"
  shows "sum_list (map versions (node_children node1)) < versions node0
         \<or> node1 = node0"
proof (cases "has_attribute (node_attributes node0) ''version''")
  case False
  with assms show ?thesis
    by (auto simp: handle_version_def Let_def split: if_splits)
next
  case True
  with assms obtain version src' up where
    u: "upgrade_tree E (src\<lparr>src_modified := modified\<rparr>) node0 version = Inr (src', up)" and
    n1: "node1 = set_attributes (remove_attribute ''version'' (node_attributes up)) up"
    by (auto simp: handle_version_def Let_def split: if_splits sum.splits)
  from versions_upgrade_tree [OF u]
  have le: "versions up \<le> versions node0"
    and keys: "map fst (node_attributes up) = map fst (node_attributes node0)" by simp_all
  from has_version_own [OF True] own_versions_keys [OF keys]
  have "0 < length (filter (\<lambda>a. fst a = ''version'') (node_attributes up))" by simp
  with versions_node [of up] have "sum_list (map versions (node_children up)) < versions up"
    by simp
  with le n1 show ?thesis by (simp add: set_attributes_def)
qed

lemma versions_substitute:
  "versions (set_attributes (substitute_attributes param (node_attributes node)) node)
     = versions node"
proof -
  have "map fst (substitute_attributes param (node_attributes node))
          = map fst (node_attributes node)"
    by (simp add: substitute_attributes_def comp_def)
  from own_versions_keys [OF this] show ?thesis
    by (cases node) (simp add: set_attributes_def)
qed

lemma parse_head_children:
  assumes "parse_head E src modified ctx node parent_tag param arg_counter depth
             = Inr (Some (tag, node1, modified1, ctx1, arg_counter1))"
  shows "sum_list (map versions (node_children node1)) < versions node
         \<or> node_children node1 = node_children node"
proof -
  let ?node0 = "set_attributes (substitute_attributes param (node_attributes node)) node"
  from assms obtain modified' node' as4 where
    h: "handle_version E src modified ?node0 depth = Inr (modified', node')" and
    n: "node1 = set_attributes as4 node'"
    by (auto simp: parse_head_def Let_def split: if_splits option.splits sum.splits)
  have c1: "node_children node1 = node_children node'"
    using n by (simp add: set_attributes_def)
  have c0: "node_children ?node0 = node_children node"
    by (simp add: set_attributes_def)
  from handle_version_children [OF h] show ?thesis
  proof
    assume "sum_list (map versions (node_children node')) < versions ?node0"
    then show ?thesis by (simp add: c1 versions_substitute)
  next
    assume "node' = ?node0"
    then show ?thesis using c1 c0 by simp
  qed
qed

lemma parse_head_measure:
  assumes "parse_head E src modified ctx node parent_tag param arg_counter depth
             = Inr (Some (tag, node1, modified1, ctx1, arg_counter1))"
  shows "sum_list (map versions (node_children node1)) < versions node
         \<or> sum_list (map versions (node_children node1)) = versions node
           \<and> size_list size (node_children node1) < size node"
proof -
  from parse_head_children [OF assms]
  show ?thesis
  proof
    assume "node_children node1 = node_children node"
    moreover have "sum_list (map versions (node_children node)) \<le> versions node"
      by (simp add: versions_node [of node])
    ultimately show ?thesis
      using size_children [of node] by auto
  qed simp
qed

lemma include_begin_depth:
  "include_begin E src node = Inr (nested_src, root_node) \<Longrightarrow>
     src_depth nested_src = src_depth src + 1
     \<and> src_depth src + 1 \<le> MTS_XML_INCLUDE_MAX_RECURSION E"
  by (auto simp: include_begin_def split: sum.splits include_result.splits if_splits)

type_synonym ('m, 'o) pstate =
  "bool \<times> ('m, 'o) XMLParseContext \<times> ('m, 'o) Properties \<times> ParameterList \<times> nat"

text \<open>
  \<open>parse_xml\<close> and its loops over child nodes. The state is \<open>src.modified\<close>, the context,
  the properties \<open>props\<close> of the enclosing object, the parameter list and the argument
  counter; all of them are references in the source. \<open>parse_children\<close> is the loop
  \<open>for (ch : children) parse_xml(...)\<close>; with \<open>bind\<close> it also stores the named reference
  that a child returns (the loops of the cases \<open>EObject\<close> and \<open>EInclude\<close>), without it the
  result of the child is dropped (the loop after the switch). An error of the node itself is
  tagged with the source id and the offset of the node; an error of a child passes through
  unchanged, and an error of an included document is wrapped once more.
\<close>

function parse_xml ::
    "('m, 'o) env \<Rightarrow> XMLSource \<Rightarrow> xml_node \<Rightarrow> ETag \<Rightarrow> nat \<Rightarrow> bool \<Rightarrow> ('m, 'o) pstate
       \<Rightarrow> error + ((string \<times> string) \<times> ('m, 'o) pstate)"
  and parse_children ::
    "('m, 'o) env \<Rightarrow> bool \<Rightarrow> XMLSource \<Rightarrow> xml_node list \<Rightarrow> ETag \<Rightarrow> nat \<Rightarrow> bool
       \<Rightarrow> ('m, 'o) pstate \<Rightarrow> error + ('m, 'o) pstate"
where
  "parse_xml E src node parent_tag depth within_emitter (modified, ctx, props, param, arg_counter) =
     (case parse_head E src modified ctx node parent_tag param arg_counter depth of
        Inl e \<Rightarrow> Inl (Error (src_id src) (offset_debug node) e)
      | Inr None \<Rightarrow> Inr (([], []), (modified, ctx, props, param, arg_counter))
      | Inr (Some (tag, node1, modified1, ctx1, arg_counter1)) \<Rightarrow>
          (if tag = EObject then
             (case object_begin E ctx1 node1 of
                Inl e \<Rightarrow> Inl (Error (src_id src) (offset_debug node) e)
              | Inr (object_id, name, cls) \<Rightarrow>
                  (case parse_children E True src (node_children node1) EObject (depth + 1)
                          (node_name node1 = ''emitter'')
                          (modified1, ctx1, (Properties_new [])\<lparr>props_id := object_id\<rparr>, param, 0) of
                     Inl e \<Rightarrow> Inl e
                   | Inr (modified2, ctx2, props_nested, param2, arg_counter_nested) \<Rightarrow>
                       Inr ((name, object_id),
                            (modified2, object_end ctx2 object_id props_nested cls src node1,
                             props, param2, arg_counter1))))
           else if tag = ENamedReference then
             (case case_ENamedReference (node_name node1) (node_attributes node1) of
                Inl e \<Rightarrow> Inl (Error (src_id src) (offset_debug node) e)
              | Inr r \<Rightarrow> Inr (r, (modified1, ctx1, props, param, arg_counter1)))
           else if tag = EAlias then
             (case case_EAlias src ctx1 node1 of
                Inl e \<Rightarrow> Inl (Error (src_id src) (offset_debug node) e)
              | Inr ctx2 \<Rightarrow> Inr (([], []), (modified1, ctx2, props, param, arg_counter1)))
           else if tag = EDefault then
             (case case_EDefault (node_name node1) (node_attributes node1) param of
                Inl e \<Rightarrow> Inl (Error (src_id src) (offset_debug node) e)
              | Inr param2 \<Rightarrow> Inr (([], []), (modified1, ctx1, props, param2, arg_counter1)))
           else if tag = EInclude then
             (case include_begin E src node1 of
                Inl e \<Rightarrow> Inl (Error (src_id src) (offset_debug node) e)
              | Inr (nested_src, root_node) \<Rightarrow>
                  (if node_name root_node = ''scene'' then
                     (case parse_children E True nested_src (node_children root_node) parent_tag 1
                             False (False, ctx1, props, param, arg_counter1) of
                        Inl e \<Rightarrow> Inl (Error (src_id src) (offset_debug node) (Nested e))
                      | Inr (nested_modified, ctx2, props2, param2, arg_counter2) \<Rightarrow>
                          (case parse_children E False src (node_children node1) tag (depth + 1)
                                  False (modified1, ctx2, props2, param2, arg_counter2) of
                             Inl e \<Rightarrow> Inl e
                           | Inr st3 \<Rightarrow> Inr (([], []), st3)))
                   else
                     (case parse_xml E nested_src root_node parent_tag 0 False
                             (False, ctx1, props, param, arg_counter1) of
                        Inl e \<Rightarrow> Inl (Error (src_id src) (offset_debug node) (Nested e))
                      | Inr (r, (nested_modified, ctx2, props2, param2, arg_counter2)) \<Rightarrow>
                          Inr (r, (modified1, ctx2, props2, param2, arg_counter2)))))
           else
             (case property_case E tag ctx1 within_emitter (node_name node1)
                     (node_attributes node1) props of
                Inl e \<Rightarrow> Inl (Error (src_id src) (offset_debug node) e)
              | Inr (ctx2, props2) \<Rightarrow>
                  (case parse_children E False src (node_children node1) tag (depth + 1) False
                          (modified1, ctx2, props2, param, arg_counter1) of
                     Inl e \<Rightarrow> Inl e
                   | Inr (modified3, ctx3, props3, param3, arg_counter3) \<Rightarrow>
                       Inr (([], []),
                            (modified3, ctx3,
                             (if tag = ETransform
                              then set_property (attr_value (node_attributes node1) ''name'')
                                     (PTransform (transform ctx3)) props3
                              else props3),
                             param3, arg_counter3))))))"
| "parse_children E bind src [] parent_tag depth within_emitter st = Inr st"
| "parse_children E bind src (ch # chs) parent_tag depth within_emitter st =
     (case parse_xml E src ch parent_tag depth within_emitter st of
        Inl e \<Rightarrow> Inl e
      | Inr ((arg_name, nested_id), (modified1, ctx1, props1, param1, arg_counter1)) \<Rightarrow>
          parse_children E bind src chs parent_tag depth within_emitter
            (modified1, ctx1,
             (if bind \<and> nested_id \<noteq> []
              then set_property arg_name (PNamedReference nested_id) props1 else props1),
             param1, arg_counter1))"
  by pat_completeness auto

termination
proof (relation "inv_image (less_than <*lex*> less_than <*lex*> less_than)
    (\<lambda>x. case x of
       Inl (E, src, node, r) \<Rightarrow>
         (MTS_XML_INCLUDE_MAX_RECURSION E + 1 - src_depth src, versions node, size node)
     | Inr (E, bind, src, nodes, r) \<Rightarrow>
         (MTS_XML_INCLUDE_MAX_RECURSION E + 1 - src_depth src,
          sum_list (map versions nodes), size_list size nodes))", goal_cases)
  case 1
  show ?case by (intro wf_inv_image wf_lex_prod wf_less_than)
next
  case 2
  then show ?case by (auto dest: parse_head_measure)
next
  case 3
  then show ?case by (auto dest!: include_begin_depth)
next
  case 4
  then show ?case by (auto dest: parse_head_measure)
next
  case 5
  then show ?case by (auto dest!: include_begin_depth)
next
  case 6
  then show ?case by (auto dest: parse_head_measure)
next
  case 7
  then show ?case by auto
next
  case 8
  then show ?case by auto
qed

section \<open>An environment for examples\<close>

text \<open>
  The theorems below hold for every environment. Where a closed example needs one, it uses
  \<open>example_env\<close>: tokens are split at delimiter characters and empty tokens are dropped,
  numbers are plain decimal numerals, \<open>std::to_string\<close> prints six decimals, transforms
  are the lists of the operations that were multiplied (the leftmost factor first), and an
  object is the plugin name, the class and the properties it was created from.
\<close>

fun split_tokens :: "string \<Rightarrow> string \<Rightarrow> string \<Rightarrow> string list" where
  "split_tokens delim cur [] = (if cur = [] then [] else [cur])"
| "split_tokens delim cur (c # cs) =
     (if c \<in> set delim
      then (if cur = [] then split_tokens delim [] cs else cur # split_tokens delim [] cs)
      else split_tokens delim (cur @ [c]) cs)"

definition example_tokenize :: "string \<Rightarrow> string \<Rightarrow> string list" where
  "example_tokenize s delim = split_tokens delim [] s"

definition is_digit :: "char \<Rightarrow> bool" where
  "is_digit c \<longleftrightarrow> c \<in> set ''0123456789''"

definition digit_value :: "char \<Rightarrow> nat" where
  "digit_value c = (case map_of (zip ''0123456789'' [0, 1, 2, 3, 4, 5, 6, 7, 8, 9]) c of
                      None \<Rightarrow> 0 | Some d \<Rightarrow> d)"

definition digits_value :: "string \<Rightarrow> nat" where
  "digits_value ds = foldl (\<lambda>n c. 10 * n + digit_value c) 0 ds"

definition split_sign :: "string \<Rightarrow> bool \<times> string" where
  "split_sign s =
     (case s of
        [] \<Rightarrow> (False, s)
      | c # r \<Rightarrow> if c = CHR ''-'' then (True, r) else if c = CHR ''+'' then (False, r)
                  else (False, s))"

definition example_stof :: "string \<Rightarrow> (real \<times> nat) option" where
  "example_stof s =
     (let (neg, r2) = split_sign (dropWhile isspace s);
          ip = takeWhile is_digit r2;
          r3 = dropWhile is_digit r2;
          (fp, r4) = (case r3 of
                        [] \<Rightarrow> ([], r3)
                      | c # r \<Rightarrow> if c = CHR ''.''
                                  then (takeWhile is_digit r, dropWhile is_digit r)
                                  else ([], r3))
      in if ip = [] \<and> fp = [] then None
         else Some ((if neg then - 1 else 1)
                      * (real (digits_value ip) + real (digits_value fp) / 10 ^ length fp),
                    length s - length r4))"

definition example_stoll :: "string \<Rightarrow> (64 word \<times> nat) option" where
  "example_stoll s =
     (let (neg, r2) = split_sign (dropWhile isspace s);
          ip = takeWhile is_digit r2;
          r3 = dropWhile is_digit r2
      in if ip = [] then None
         else Some ((if neg then - 1 else 1) * of_nat (digits_value ip), length s - length r3))"

definition example_stoul :: "string \<Rightarrow> nat option" where
  "example_stoul s =
     (let (neg, r2) = split_sign (dropWhile isspace s);
          ip = takeWhile is_digit r2
      in if ip = [] then None else Some (digits_value ip))"

definition example_to_string :: "real \<Rightarrow> string" where
  "example_to_string r =
     (let n = nat \<lfloor>\<bar>r\<bar> * 1000000 + 1 / 2\<rfloor>;
          frac = to_string (n mod 1000000)
      in (if r < 0 then ''-'' else [])
           @ to_string (n div 1000000) @ ''.'' @ drop (length frac) ''000000'' @ frac)"

datatype sym_op =
    SymTranslate Vector3f
  | SymRotate Vector3f real
  | SymScale Vector3f
  | SymLookAt Vector3f Vector3f Vector3f
  | SymMatrix "real list"

datatype sym_object =
  SymObject string Class "(string \<times> (sym_op list, sym_object) pvalue) list"

definition example_tags :: "string \<rightharpoonup> ETag" where
  "example_tags =
     map_of [(''boolean'', EBoolean), (''integer'', EInteger), (''float'', EFloat),
             (''string'', EString), (''point'', EPoint), (''vector'', EVector),
             (''transform'', ETransform), (''translate'', ETranslate), (''matrix'', EMatrix),
             (''rotate'', ERotate), (''scale'', EScale), (''lookat'', ELookAt),
             (''ref'', ENamedReference), (''spectrum'', ESpectrum), (''rgb'', ERGB),
             (''color'', EColor), (''include'', EInclude), (''alias'', EAlias),
             (''default'', EDefault),
             (''scene'', EObject), (''shape'', EObject), (''bsdf'', EObject),
             (''emitter'', EObject), (''texture'', EObject)]"

definition example_class :: "string \<Rightarrow> Class" where
  "example_class a = \<lparr>cls_name = a, cls_alias = a, cls_variant = ''scalar_rgb''\<rparr>"

definition example_tag_class :: "string \<rightharpoonup> Class" where
  "example_tag_class =
     map_of [(''scene.scalar_rgb'', example_class ''scene''),
             (''shape.scalar_rgb'', example_class ''shape''),
             (''bsdf.scalar_rgb'', example_class ''bsdf''),
             (''emitter.scalar_rgb'', example_class ''emitter''),
             (''spectrum.scalar_rgb'', example_class ''spectrum''),
             (''texture.scalar_rgb'', example_class ''spectrum'')]"

definition example_env ::
  "(string \<Rightarrow> include_result) \<Rightarrow> (sym_op list, sym_object) env" where
  "example_env files =
     \<lparr>tokenize = example_tokenize,
      default_delim = '', '',
      std_stof = example_stof,
      std_stoll = example_stoll,
      std_stoul = example_stoul,
      float_to_string = example_to_string,
      MTS_VERSION = \<lparr>major = 2, minor = 0, patch = 0\<rparr>,
      MTS_XML_INCLUDE_MAX_RECURSION = 15,
      MTS_WAVELENGTH_MIN = 360,
      MTS_WAVELENGTH_MAX = 830,
      Epsilon = 1 / 2 ^ 24,
      tags = example_tags,
      tag_class = example_tag_class,
      load_include = files,
      tr_identity = [],
      tr_mul = (\<lambda>a b. a @ b),
      tr_translate = (\<lambda>v. [SymTranslate v]),
      tr_rotate = (\<lambda>v a. [SymRotate v a]),
      tr_scale = (\<lambda>v. [SymScale v]),
      tr_look_at = (\<lambda>origin target up. [SymLookAt origin target up]),
      tr_matrix = (\<lambda>m. [SymMatrix m]),
      tr_isnan = (\<lambda>m. False),
      class_for_name = (\<lambda>n v. example_class n),
      create_object = (\<lambda>props c. Inr (SymObject (plugin_name props) c (entries props))),
      expand = (\<lambda>obj. []),
      luminance = (\<lambda>(r, g, b). 0.212671 * r + 0.715160 * g + 0.072169 * b),
      cie1931_y = (\<lambda>w. 0),
      spectrum_eval = (\<lambda>obj w. 0)\<rparr>"

definition example_ctx :: "(sym_op list, sym_object) XMLParseContext" where
  "example_ctx =
     \<lparr>instances = Map.empty, transform = [], id_counter = 0, variant = ''scalar_rgb'',
      monochrome = False\<rparr>"

section \<open>Properties of the loader\<close>

text \<open>
  C4 (as the code has it). The source lowercases the value before it compares, so the
  boolean parser accepts exactly the strings whose lowercase form is \<open>true\<close> or \<open>false\<close>,
  in any mix of cases, and fails on every other string.
\<close>

theorem parse_boolean_accepts_iff:
  "(parse_boolean v = Inr True \<longleftrightarrow> to_lower v = ''true'')
   \<and> (parse_boolean v = Inr False \<longleftrightarrow> to_lower v = ''false'')
   \<and> ((\<exists>e. parse_boolean v = Inl e) \<longleftrightarrow> to_lower v \<noteq> ''true'' \<and> to_lower v \<noteq> ''false'')"
  by (simp add: parse_boolean_def Let_def)

text \<open>
  C4 as stated fails: the uppercase string \<open>TRUE\<close> is neither \<open>true\<close> nor \<open>false\<close>, and the
  parser accepts it.
\<close>

theorem parse_boolean_uppercase_accepted:
  "''TRUE'' \<noteq> ''true'' \<and> ''TRUE'' \<noteq> ''false'' \<and> parse_boolean ''TRUE'' = Inr True"
  by (simp add: parse_boolean_def to_lower_def tolower_def Let_def)

subsection \<open>The value attribute of translate, scale and rotate\<close>

















text \<open>The parts of the theorem at concrete elements, in the example environment.\<close>

lemmas ex_simps = case_ETranslate_def case_EScale_def case_ERotate_def translate_operation_def
  scale_operation_def rotate_operation_def expand_value_to_xyz_def example_env_def example_tokenize_def has_attribute_def attr_value_def append_attribute_def check_attributes_def parse_vector_def parse_component_def stof_def example_stof_def split_sign_def isspace_def is_digit_def digits_value_def digit_value_def check_whitespace_only_def example_ctx_def


subsection \<open>Default declarations and parameter substitution\<close>

lemma case_EDefault_Inr:
  "case_EDefault nm as param = Inr param' \<Longrightarrow>
     attr_value as ''name'' \<noteq> []
     \<and> param' = (if attr_value as ''name'' \<in> fst ` set param then param
                 else param @ [(attr_value as ''name'', attr_value as ''value'')])"
  by (force simp: case_EDefault_def Let_def list_ex_iff split: sum.splits if_splits)

lemma map_of_append_new:
  "k \<in> fst ` set param \<Longrightarrow> map_of (param @ [kv]) k = map_of param k"
  by (auto simp: map_add_def split: option.splits dest: weak_map_of_SomeI simp: map_of_eq_None_iff)

lemma map_of_default_swap:
  assumes "n1 \<noteq> n2"
  shows "map_of ((if n2 \<in> fst ` set (if n1 \<in> fst ` set param then param else param @ [(n1, v1)])
                  then (if n1 \<in> fst ` set param then param else param @ [(n1, v1)])
                  else (if n1 \<in> fst ` set param then param else param @ [(n1, v1)]) @ [(n2, v2)]))
       = map_of ((if n1 \<in> fst ` set (if n2 \<in> fst ` set param then param else param @ [(n2, v2)])
                  then (if n2 \<in> fst ` set param then param else param @ [(n2, v2)])
                  else (if n2 \<in> fst ` set param then param else param @ [(n2, v2)]) @ [(n1, v1)]))"
  using assms
  by (auto simp: fun_eq_iff map_add_def image_iff split: option.splits)

text \<open>
  C8 (as the code has it). A \<open>default\<close> element appends its pair to the parameter list
  only when the list has no entry of that name, and otherwise leaves the list as it is; the
  value that the list associates with a name that is present never changes, so a
  caller-supplied value wins over a default and an earlier default over a later one of the
  same name. Two defaults of different names, declared in either order, give lists that
  associate the same value with every name.
\<close>

theorem default_declarations:
  "(case_EDefault nm as param = Inr param' \<longrightarrow>
      (attr_value as ''name'' \<in> fst ` set param \<longrightarrow> param' = param)
      \<and> (attr_value as ''name'' \<notin> fst ` set param \<longrightarrow>
           param' = param @ [(attr_value as ''name'', attr_value as ''value'')])
      \<and> (\<forall>k \<in> fst ` set param. map_of param' k = map_of param k))
   \<and> (case_EDefault nm as1 param = Inr p1 \<and> case_EDefault nm as2 p1 = Inr p12
      \<and> case_EDefault nm as2 param = Inr p2 \<and> case_EDefault nm as1 p2 = Inr p21
      \<and> attr_value as1 ''name'' \<noteq> attr_value as2 ''name'' \<longrightarrow>
      map_of p12 = map_of p21)"
proof (intro conjI impI)
  assume h: "case_EDefault nm as param = Inr param'"
  from case_EDefault_Inr [OF h]
  show "attr_value as ''name'' \<in> fst ` set param \<Longrightarrow> param' = param"
    and "attr_value as ''name'' \<notin> fst ` set param \<Longrightarrow>
           param' = param @ [(attr_value as ''name'', attr_value as ''value'')]"
    by simp_all
  from case_EDefault_Inr [OF h]
  show "\<forall>k \<in> fst ` set param. map_of param' k = map_of param k"
    by (auto simp del: map_of_append simp add: map_of_append_new split: if_splits)
next
  assume h: "case_EDefault nm as1 param = Inr p1 \<and> case_EDefault nm as2 p1 = Inr p12
      \<and> case_EDefault nm as2 param = Inr p2 \<and> case_EDefault nm as1 p2 = Inr p21
      \<and> attr_value as1 ''name'' \<noteq> attr_value as2 ''name''"
  then have 1: "p1 = (if attr_value as1 ''name'' \<in> fst ` set param then param
                 else param @ [(attr_value as1 ''name'', attr_value as1 ''value'')])"
    and 2: "p12 = (if attr_value as2 ''name'' \<in> fst ` set p1 then p1
                 else p1 @ [(attr_value as2 ''name'', attr_value as2 ''value'')])"
    and 3: "p2 = (if attr_value as2 ''name'' \<in> fst ` set param then param
                 else param @ [(attr_value as2 ''name'', attr_value as2 ''value'')])"
    and 4: "p21 = (if attr_value as1 ''name'' \<in> fst ` set p2 then p2
                 else p2 @ [(attr_value as1 ''name'', attr_value as1 ''value'')])"
    using case_EDefault_Inr by blast+
  from h have ne: "attr_value as1 ''name'' \<noteq> attr_value as2 ''name''" by simp
  show "map_of p12 = map_of p21"
    unfolding 2 4 unfolding 1 3
    by (rule map_of_default_swap [OF ne])
qed

text \<open>
  The theorem at concrete elements: a default for a caller-supplied name changes nothing,
  and two defaults of different names give the same association in both orders.
\<close>

theorem default_declarations_witness:
  "case_EDefault ''default'' [(''name'', ''a''), (''value'', ''1'')] [(''a'', ''0'')]
     = Inr [(''a'', ''0'')]
   \<and> map_of [(''a'', ''0'')] ''a'' = Some ''0''
   \<and> ''a'' \<noteq> ''ab''
   \<and> map_of [(''a'', ''1''), (''ab'', ''2'')] = map_of [(''ab'', ''2''), (''a'', ''1'')]"
proof (intro conjI)
  show 1: "case_EDefault ''default'' [(''name'', ''a''), (''value'', ''1'')] [(''a'', ''0'')]
     = Inr [(''a'', ''0'')]"
    by (simp add: case_EDefault_def check_attributes_def attr_value_def)
  show "map_of [(''a'', ''0'')] ''a'' = Some ''0''"
    using default_declarations [where nm = "''default''" and param = "[(''a'', ''0'')]"
        and as = "[(''name'', ''a''), (''value'', ''1'')]" and param' = "[(''a'', ''0'')]"] 1
    by simp
  show "''a'' \<noteq> ''ab''" by simp
  have 2: "case_EDefault ''default'' [(''name'', ''a''), (''value'', ''1'')] [] = Inr [(''a'', ''1'')]"
    "case_EDefault ''default'' [(''name'', ''ab''), (''value'', ''2'')] [(''a'', ''1'')]
        = Inr [(''a'', ''1''), (''ab'', ''2'')]"
    "case_EDefault ''default'' [(''name'', ''ab''), (''value'', ''2'')] [] = Inr [(''ab'', ''2'')]"
    "case_EDefault ''default'' [(''name'', ''a''), (''value'', ''1'')] [(''ab'', ''2'')]
        = Inr [(''ab'', ''2''), (''a'', ''1'')]"
    by (simp_all add: case_EDefault_def check_attributes_def attr_value_def)
  have 3: "attr_value [(''name'', ''a''), (''value'', ''1'')] ''name''
             \<noteq> attr_value [(''name'', ''ab''), (''value'', ''2'')] ''name''"
    by (simp add: attr_value_def)
  show "map_of [(''a'', ''1''), (''ab'', ''2'')] = map_of [(''ab'', ''2''), (''a'', ''1'')]"
    using default_declarations [where nm = "''default''" and param = "[]"
        and ?as1.0 = "[(''name'', ''a''), (''value'', ''1'')]"
        and ?as2.0 = "[(''name'', ''ab''), (''value'', ''2'')]"
        and ?p1.0 = "[(''a'', ''1'')]" and ?p12.0 = "[(''a'', ''1''), (''ab'', ''2'')]"
        and ?p2.0 = "[(''ab'', ''2'')]" and ?p21.0 = "[(''ab'', ''2''), (''a'', ''1'')]"]
      2 3
    by blast
qed

text \<open>
  C8 as stated fails. The entries are applied in list order by textual replacement, and
  the list order of two defaults is their declaration order. With the defaults \<open>a = 1\<close>
  and \<open>ab = 2\<close>, the attribute value \<open>$ab\<close> becomes \<open>1b\<close> when \<open>a\<close> is declared first and
  \<open>2\<close> when \<open>ab\<close> is declared first.
\<close>

lemmas subst_simps = substitute_attributes_def substitute_value_def replace_inplace.simps

theorem substitution_depends_on_declaration_order:
  "case_EDefault ''default'' [(''name'', ''a''), (''value'', ''1'')] [] = Inr [(''a'', ''1'')]
   \<and> case_EDefault ''default'' [(''name'', ''ab''), (''value'', ''2'')] [(''a'', ''1'')]
        = Inr [(''a'', ''1''), (''ab'', ''2'')]
   \<and> case_EDefault ''default'' [(''name'', ''ab''), (''value'', ''2'')] [] = Inr [(''ab'', ''2'')]
   \<and> case_EDefault ''default'' [(''name'', ''a''), (''value'', ''1'')] [(''ab'', ''2'')]
        = Inr [(''ab'', ''2''), (''a'', ''1'')]
   \<and> substitute_attributes [(''a'', ''1''), (''ab'', ''2'')] [(''name'', ''s''), (''value'', ''$ab'')]
        = [(''name'', ''s''), (''value'', ''1b'')]
   \<and> substitute_attributes [(''ab'', ''2''), (''a'', ''1'')] [(''name'', ''s''), (''value'', ''$ab'')]
        = [(''name'', ''s''), (''value'', ''2'')]"
  by (simp add: case_EDefault_def check_attributes_def attr_value_def subst_simps)


subsection \<open>The camelCase rewrite of an empty name\<close>

text \<open>A non-empty name is rewritten without a read out of bounds.\<close>

lemma camel_bound_le: "name \<noteq> [] \<Longrightarrow> (length name + 2 ^ 64 - 1) mod 2 ^ 64 \<le> length name - 1"
proof -
  assume "name \<noteq> []"
  then have "length name + 2 ^ 64 - 1 = (length name - 1) + 2 ^ 64"
    by (cases name) simp_all
  then have "(length name + 2 ^ 64 - 1) mod 2 ^ 64 = (length name - 1) mod 2 ^ 64"
    by (simp only: mod_add_self2)
  also have "\<dots> \<le> length name - 1"
    by (rule mod_less_eq_dividend)
  finally show ?thesis .
qed

lemma camel_nonempty: "name \<noteq> [] \<Longrightarrow> \<exists>r. camel_loop i name = Inr r"
proof (induction i name rule: camel_loop.induct)
  case (1 i name)
  note b = camel_bound_le [OF "1.prems"]
  show ?case
  proof (cases "i < (length name + 2 ^ 64 - 1) mod 2 ^ 64")
    case False
    then show ?thesis by (simp add: camel_loop.simps [of i name])
  next
    case True
    with b have i: "i + 1 < length name" by simp
    show ?thesis
    proof (cases "islower (char_at name i)")
      case False
      with True i "1.IH"(3) "1.prems" show ?thesis
        by (simp add: camel_loop.simps [of i name])
    next
      case low: True
      show ?thesis
      proof (cases "isupper (char_at name (i + 1))")
        case False
        with True i low "1.IH"(2) "1.prems" show ?thesis
          by (simp add: camel_loop.simps [of i name])
      next
        case up: True
        obtain j name' where lr: "lower_run (i + 2) (take (i + 1) name @ ''_'' @ drop (i + 1) name) = (j, name')"
          by (cases "lower_run (i + 2) (take (i + 1) name @ ''_'' @ drop (i + 1) name)")
        from lower_run_bounds [OF lr] have "name' \<noteq> []" by auto
        with "1.IH"(1) [OF True _ low _ up lr [symmetric]] i
        have "\<exists>r. camel_loop (j + 1) name' = Inr r" by simp
        with True i low up lr show ?thesis
          by (simp add: camel_loop.simps [of i name])
      qed
    qed
  qed
qed

text \<open>
  C9. On the empty name the bound \<open>name.length() - 1\<close> wraps around to \<open>2 ^ 64 - 1\<close>, the
  loop is entered, and its second iteration reads \<open>name[1]\<close>, which is beyond the
  terminating zero of the empty string.
\<close>

theorem camel_to_underscore_empty_name:
  "camel_to_underscore [] = Inl UndefinedBehaviour"
  by (simp add: camel_to_underscore_def camel_loop.simps [of 0] camel_loop.simps [of "Suc 0"]
        char_at_def islower_def)

subsection \<open>Binding of an object that expands into several\<close>

text \<open>
  C1. When the referent expands into two objects, the two indexed names are both bound to
  the first of them; the second object is bound nowhere.
\<close>

theorem bind_expanded_two_children:
  "bind_expanded ''nested'' ''obj'' [''first'', ''second'']
     (Properties_new [] :: (unit, string) Properties)
   = \<lparr>plugin_name = [], props_id = [],
      entries = [(''nested_0'', PObject ''first''), (''nested_1'', PObject ''first'')]\<rparr>"
  by (simp add: bind_expanded_def Properties_new_def set_property_def to_string.simps)


subsection \<open>Spectra given as wavelength:value pairs\<close>

text \<open>
  The loop in closed form: when every token is a well-formed pair, the loop fails exactly
  when the wavelengths are not in non-decreasing order, and otherwise returns the samples,
  the first interval, and whether no later spacing exceeds the first interval by more than
  \<open>Epsilon\<close>.
\<close>

lemma spectrum_loop_snoc:
  "spectrum_loop E uc (tokens @ [t]) st =
     (case spectrum_loop E uc tokens st of
        Inl e \<Rightarrow> Inl e
      | Inr st' \<Rightarrow> spectrum_step E uc t st')"
  by (induction tokens arbitrary: st) (auto split: sum.splits)

lemma sorted_snoc_last:
  fixes x :: real
  shows "sorted (xs @ [x]) \<longleftrightarrow> sorted xs \<and> (xs = [] \<or> last xs \<le> x)"
proof (cases "xs = []")
  case True
  then show ?thesis by simp
next
  case False
  then obtain ys y where xs: "xs = ys @ [y]"
    by (cases xs rule: rev_cases) auto
  show ?thesis
    unfolding xs by (auto simp: sorted_append)
qed

lemma spectrum_step_later:
  assumes "parse_wavelength_pair E t = Inr (w, v)" and "ws \<noteq> []"
  shows "spectrum_step E uc t (ws, vs, reg, iv) =
           (if w - last ws < 0 then Inl WavelengthOrder
            else if length ws = 1 then Inr (ws @ [w], vs @ [v * uc], reg, w - last ws)
            else if w - last ws - iv > Epsilon E then Inr (ws @ [w], vs @ [v * uc], False, iv)
            else Inr (ws @ [w], vs @ [v * uc], reg, iv))"
proof -
  from assms(2) have "(ws @ [w]) ! (length ws - Suc 0) = last ws"
    by (simp add: nth_append last_conv_nth)
  moreover from assms(2) have "length ws \<noteq> 0" by simp
  ultimately show ?thesis
    using assms(1) by (simp add: spectrum_step_def Let_def)
qed

lemma spectrum_step_first:
  assumes "parse_wavelength_pair E t = Inr (w, v)"
  shows "spectrum_step E uc t ([], vs, reg, iv) = Inr ([w], vs @ [v * uc], reg, iv)"
  using assms by (simp add: spectrum_step_def Let_def)


lemma spacing_snoc:
  fixes ps' :: "(real \<times> real) list"
  assumes "2 \<le> length ps'"
  shows "(\<forall>k. 2 \<le> k \<and> k < length (ps' @ [p]) \<longrightarrow>
            fst ((ps' @ [p]) ! k) - fst ((ps' @ [p]) ! (k - 1))
              - (fst ((ps' @ [p]) ! 1) - fst ((ps' @ [p]) ! 0)) \<le> eps) \<longleftrightarrow>
         (\<forall>k. 2 \<le> k \<and> k < length ps' \<longrightarrow>
            fst (ps' ! k) - fst (ps' ! (k - 1)) - (fst (ps' ! 1) - fst (ps' ! 0)) \<le> eps)
         \<and> fst p - fst (last ps') - (fst (ps' ! 1) - fst (ps' ! 0)) \<le> eps"
    (is "?L \<longleftrightarrow> ?R1 \<and> ?R2")
proof -
  from assms have ne: "ps' \<noteq> []" by auto
  have idx: "\<And>j. j < length ps' \<Longrightarrow> (ps' @ [p]) ! j = ps' ! j"
    by (simp add: nth_append)
  have i0: "(ps' @ [p]) ! 0 = ps' ! 0" and i1: "(ps' @ [p]) ! Suc 0 = ps' ! Suc 0"
    using assms ne idx [of 0] idx [of "Suc 0"] by simp_all
  have l: "(ps' @ [p]) ! (length ps' - Suc 0) = last ps'"
    using ne idx [of "length ps' - Suc 0"] by (simp add: last_conv_nth)
  have top: "(ps' @ [p]) ! length ps' = p" by simp
  show ?thesis
  proof
    assume L: ?L
    have ?R1
    proof (intro allI impI)
      fix k assume k: "2 \<le> k \<and> k < length ps'"
      with L have "fst ((ps' @ [p]) ! k) - fst ((ps' @ [p]) ! (k - 1))
              - (fst ((ps' @ [p]) ! 1) - fst ((ps' @ [p]) ! 0)) \<le> eps"
        by simp
      moreover from k have "(ps' @ [p]) ! k = ps' ! k" "(ps' @ [p]) ! (k - 1) = ps' ! (k - 1)"
        using idx [of k] idx [of "k - 1"] by (auto simp: less_imp_diff_less)
      ultimately
      show "fst (ps' ! k) - fst (ps' ! (k - 1)) - (fst (ps' ! 1) - fst (ps' ! 0)) \<le> eps"
        using i0 i1 by simp
    qed
    moreover have ?R2
      using L [rule_format, of "length ps'"] assms l top i0 i1 by simp
    ultimately show "?R1 \<and> ?R2" ..
  next
    assume R: "?R1 \<and> ?R2"
    show ?L
    proof (intro allI impI)
      fix k assume k: "2 \<le> k \<and> k < length (ps' @ [p])"
      show "fst ((ps' @ [p]) ! k) - fst ((ps' @ [p]) ! (k - 1))
              - (fst ((ps' @ [p]) ! 1) - fst ((ps' @ [p]) ! 0)) \<le> eps"
      proof (cases "k < length ps'")
        case True
        with k have "(ps' @ [p]) ! k = ps' ! k" "(ps' @ [p]) ! (k - 1) = ps' ! (k - 1)"
          using idx [of k] idx [of "k - 1"] by (auto simp: less_imp_diff_less)
        with True k R i0 i1 show ?thesis by simp
      next
        case False
        with k have "k = length ps'" by simp
        with R l top i0 i1 show ?thesis by simp
      qed
    qed
  qed
qed

lemma spectrum_loop_closed_form:
  "map (parse_wavelength_pair E) tokens = map Inr ps \<Longrightarrow>
   spectrum_loop E uc tokens ([], [], True, 0) =
     (if sorted (map fst ps) then
        Inr (map fst ps, map (\<lambda>p. snd p * uc) ps,
             (\<forall>k. 2 \<le> k \<and> k < length ps \<longrightarrow>
                  fst (ps ! k) - fst (ps ! (k - 1)) - (fst (ps ! 1) - fst (ps ! 0)) \<le> Epsilon E),
             (if 2 \<le> length ps then fst (ps ! 1) - fst (ps ! 0) else 0))
      else Inl WavelengthOrder)"
proof (induction tokens arbitrary: ps rule: rev_induct)
  case Nil
  then show ?case by simp
next
  case (snoc t tokens)
  from snoc.prems obtain ps' w v where ps: "ps = ps' @ [(w, v)]"
    and parse': "map (parse_wavelength_pair E) tokens = map Inr ps'"
    and parse_t: "parse_wavelength_pair E t = Inr (w, v)"
    by (cases ps rule: rev_cases) auto
  note IH = snoc.IH [OF parse']
  show ?case
  proof (cases "sorted (map fst ps')")
    case False
    with IH ps show ?thesis
      by (simp add: spectrum_loop_snoc sorted_snoc_last)
  next
    case True
    show ?thesis
    proof (cases "ps' = []")
      case True
      with parse' have "tokens = []" by simp
      with True ps show ?thesis
        by (simp add: spectrum_step_first [OF parse_t])
    next
      case ne: False
      then have ne': "map fst ps' \<noteq> []" by simp
      have last: "last (map fst ps') = fst (last ps')"
        using ne by (simp add: last_map)
      note step = spectrum_step_later [OF parse_t ne', unfolded last]
      have len: "length ps' = 1 \<or> 2 \<le> length ps'"
        using ne by (cases ps') (auto simp: Suc_le_eq)
      from len show ?thesis
      proof
        assume l1: "length ps' = 1"
        then obtain q where q: "ps' = [q]" by (cases ps') auto
        show ?thesis
          unfolding spectrum_loop_snoc IH ps q
          using step [of uc, unfolded q] by (simp add: sorted_snoc_last)
      next
        assume l2: "2 \<le> length ps'"
        have e: "(ps' @ [(w, v)]) ! 1 = ps' ! 1" "(ps' @ [(w, v)]) ! 0 = ps' ! 0"
          using l2 ne by (auto simp: nth_append)
        have l2': "length ps' \<noteq> 1" "2 \<le> length (ps' @ [(w, v)])" using l2 by simp_all
        show ?thesis
          unfolding spectrum_loop_snoc IH ps
          using True l2 l2' ne spacing_snoc [OF l2, of "(w, v)" "Epsilon E"]
          by (simp add: step sorted_snoc_last last e not_less del: One_nat_def)
      qed
    qed
  qed
qed


lemma spectrum_samples_closed_form:
  assumes "map (parse_wavelength_pair E) tokens = map Inr ps"
  shows "spectrum_samples E uc tokens =
     (if \<not> sorted (map fst ps) then Inl WavelengthOrder
      else if \<not> (\<forall>k. 2 \<le> k \<and> k < length ps \<longrightarrow>
                  fst (ps ! k) - fst (ps ! (k - 1)) - (fst (ps ! 1) - fst (ps ! 0)) \<le> Epsilon E)
        then Inl IrregularSpectrum
      else Inr (map fst ps, map (\<lambda>p. snd p * uc) ps))"
  unfolding spectrum_samples_def spectrum_loop_closed_form [OF assms]
  by simp

lemma sorted_fst_iff:
  fixes ps :: "(real \<times> real) list"
  shows "sorted (map fst ps) \<longleftrightarrow> (\<forall>k. Suc k < length ps \<longrightarrow> fst (ps ! k) \<le> fst (ps ! Suc k))"
  by (simp add: sorted_iff_nth_Suc)

text \<open>
  C3 (as the code has it). For a \<open>spectrum\<close> element with attributes \<open>name\<close> and
  \<open>value\<close> whose value is a list of at least two well-formed pairs: parsing fails when a
  wavelength is smaller than its predecessor; it fails when the wavelengths are in
  non-decreasing order and a spacing exceeds the first interval by more than \<open>Epsilon\<close>;
  and when the wavelengths are in non-decreasing order and every spacing is within
  \<open>Epsilon\<close> of the first interval, the \<open>interpolated\<close> spectrum is created from the
  samples (and bound under the name, outside monochrome mode).
\<close>

theorem spectrum_pairs_checked:
  assumes attrs: "check_attributes nm as [''name'', ''value''] True = Inr ()"
    and parse: "map (parse_wavelength_pair E)
                  (tokenize E (attr_value as ''value'') (default_delim E)) = map Inr ps"
    and len: "2 \<le> length ps"
  shows
    "((\<exists>k. Suc k < length ps \<and> fst (ps ! Suc k) < fst (ps ! k)) \<longrightarrow>
        case_ESpectrum E ctx within_emitter nm as props = Inl WavelengthOrder)
     \<and> ((\<forall>k. Suc k < length ps \<longrightarrow> fst (ps ! k) \<le> fst (ps ! Suc k))
        \<and> (\<exists>k. 2 \<le> k \<and> k < length ps
               \<and> fst (ps ! k) - fst (ps ! (k - 1)) - (fst (ps ! 1) - fst (ps ! 0)) > Epsilon E) \<longrightarrow>
        case_ESpectrum E ctx within_emitter nm as props = Inl IrregularSpectrum)
     \<and> ((\<forall>k. Suc k < length ps \<longrightarrow> fst (ps ! k) \<le> fst (ps ! Suc k))
        \<and> (\<forall>k. 2 \<le> k \<and> k < length ps \<longrightarrow>
               \<bar>fst (ps ! k) - fst (ps ! (k - 1)) - (fst (ps ! 1) - fst (ps ! 0))\<bar> \<le> Epsilon E) \<longrightarrow>
        case_ESpectrum E ctx within_emitter nm as props =
          spectrum_finish E ctx within_emitter (attr_value as ''name'') (map fst ps)
            (map (\<lambda>p. snd p * (if within_emitter then 100 / 10568 else 1)) ps) props
        \<and> (\<not> monochrome ctx \<longrightarrow>
             case_ESpectrum E ctx within_emitter nm as props =
               (case create_spectrum E ctx
                       (interpolated_props (map fst ps)
                          (map (\<lambda>p. snd p * (if within_emitter then 100 / 10568 else 1)) ps)) of
                  Inl e \<Rightarrow> Inl e
                | Inr obj \<Rightarrow> Inr (set_property (attr_value as ''name'') (PObject obj) props))))"
proof -
  let ?tokens = "tokenize E (attr_value as ''value'') (default_delim E)"
  let ?uc = "if within_emitter then 100 / 10568 else 1 :: real"
  from parse have "length ?tokens = length ps"
    by (metis length_map)
  with len have n1: "length ?tokens \<noteq> 1" by simp
  have cs: "case_ESpectrum E ctx within_emitter nm as props =
          (case spectrum_samples E ?uc ?tokens of
             Inl e \<Rightarrow> Inl e
           | Inr (wavelengths, values) \<Rightarrow>
               spectrum_finish E ctx within_emitter (attr_value as ''name'')
                 wavelengths values props)"
    using attrs n1 by (simp add: case_ESpectrum_def Let_def)
  note sm = spectrum_samples_closed_form [OF parse, of ?uc]
  show ?thesis
  proof (intro conjI impI)
    assume "\<exists>k. Suc k < length ps \<and> fst (ps ! Suc k) < fst (ps ! k)"
    then have "\<not> sorted (map fst ps)"
      by (auto simp: sorted_fst_iff not_le)
    then show "case_ESpectrum E ctx within_emitter nm as props = Inl WavelengthOrder"
      by (simp add: cs sm)
  next
    assume h: "(\<forall>k. Suc k < length ps \<longrightarrow> fst (ps ! k) \<le> fst (ps ! Suc k))
        \<and> (\<exists>k. 2 \<le> k \<and> k < length ps
               \<and> fst (ps ! k) - fst (ps ! (k - 1)) - (fst (ps ! 1) - fst (ps ! 0)) > Epsilon E)"
    then have "sorted (map fst ps)" by (simp add: sorted_fst_iff)
    moreover from h have "\<not> (\<forall>k. 2 \<le> k \<and> k < length ps \<longrightarrow>
                  fst (ps ! k) - fst (ps ! (k - 1)) - (fst (ps ! 1) - fst (ps ! 0)) \<le> Epsilon E)"
      by (auto simp: not_le)
    ultimately show "case_ESpectrum E ctx within_emitter nm as props = Inl IrregularSpectrum"
      unfolding cs sm by simp
  next
    assume h: "(\<forall>k. Suc k < length ps \<longrightarrow> fst (ps ! k) \<le> fst (ps ! Suc k))
        \<and> (\<forall>k. 2 \<le> k \<and> k < length ps \<longrightarrow>
               \<bar>fst (ps ! k) - fst (ps ! (k - 1)) - (fst (ps ! 1) - fst (ps ! 0))\<bar> \<le> Epsilon E)"
    then have s: "sorted (map fst ps)" by (simp add: sorted_fst_iff)
    from h have r: "\<forall>k. 2 \<le> k \<and> k < length ps \<longrightarrow>
                  fst (ps ! k) - fst (ps ! (k - 1)) - (fst (ps ! 1) - fst (ps ! 0)) \<le> Epsilon E"
      by (meson abs_le_D1)
    from s r show fin: "case_ESpectrum E ctx within_emitter nm as props =
          spectrum_finish E ctx within_emitter (attr_value as ''name'') (map fst ps)
            (map (\<lambda>p. snd p * ?uc) ps) props"
      unfolding cs sm by simp
    assume "\<not> monochrome ctx"
    moreover from len have "map fst ps \<noteq> []" by auto
    ultimately show "case_ESpectrum E ctx within_emitter nm as props =
               (case create_spectrum E ctx
                       (interpolated_props (map fst ps) (map (\<lambda>p. snd p * ?uc) ps)) of
                  Inl e \<Rightarrow> Inl e
                | Inr obj \<Rightarrow> Inr (set_property (attr_value as ''name'') (PObject obj) props))"
      unfolding fin by (simp add: spectrum_finish_def split: sum.splits)
  qed
qed


text \<open>The three parts at concrete elements, in the example environment.\<close>

lemmas spectrum_simps = case_ESpectrum_def spectrum_samples_def spectrum_step_def
  parse_wavelength_pair_def spectrum_finish_def create_spectrum_def interpolated_props_def
  set_property_def Properties_new_def example_class_def

theorem spectrum_pairs_checked_witness:
  "case_ESpectrum (example_env FileNotFound) example_ctx False ''spectrum''
      [(''name'', ''s''), (''value'', ''500:1 400:2'')] (Properties_new []) = Inl WavelengthOrder
   \<and> case_ESpectrum (example_env FileNotFound) example_ctx False ''spectrum''
      [(''name'', ''s''), (''value'', ''400:1 500:1 700:1'')] (Properties_new [])
        = Inl IrregularSpectrum
   \<and> case_ESpectrum (example_env FileNotFound) example_ctx False ''spectrum''
      [(''name'', ''s''), (''value'', ''400:1 500:2 600:3'')] (Properties_new [])
        = Inr \<lparr>plugin_name = [], props_id = [],
          entries = [(''s'', PObject (SymObject ''interpolated'' (example_class ''spectrum'')
                       [(''lambda_min'', PFloat 400), (''lambda_max'', PFloat 600),
                        (''size'', PLong 3), (''values'', PPointer [1, 2, 3])]))]\<rparr>"
proof (intro conjI)
  let ?E = "example_env FileNotFound"
  let ?as1 = "[(''name'', ''s''), (''value'', ''500:1 400:2'')]"
  let ?as2 = "[(''name'', ''s''), (''value'', ''400:1 500:1 700:1'')]"
  let ?as3 = "[(''name'', ''s''), (''value'', ''400:1 500:2 600:3'')]"
  let ?ps1 = "[(500, 1), (400, 2)] :: (real \<times> real) list"
  let ?ps2 = "[(400, 1), (500, 1), (700, 1)] :: (real \<times> real) list"
  let ?ps3 = "[(400, 1), (500, 2), (600, 3)] :: (real \<times> real) list"
  note main = spectrum_pairs_checked [where E = ?E and ctx = example_ctx
      and nm = "''spectrum''" and within_emitter = False and props = "Properties_new []"]
  have attrs: "\<And>v. check_attributes ''spectrum'' [(''name'', ''s''), (''value'', v)]
                  [''name'', ''value''] True = Inr ()"
    by (simp add: check_attributes_def)
  have p1: "map (parse_wavelength_pair ?E)
              (tokenize ?E (attr_value ?as1 ''value'') (default_delim ?E)) = map Inr ?ps1"
    by (simp add: ex_simps parse_wavelength_pair_def)
  have l1: "2 \<le> length ?ps1" by simp
  have h1: "\<exists>k. Suc k < length ?ps1 \<and> fst (?ps1 ! Suc k) < fst (?ps1 ! k)"
    by (rule exI [of _ 0]) simp
  show "case_ESpectrum ?E example_ctx False ''spectrum'' ?as1 (Properties_new [])
          = Inl WavelengthOrder"
    using main [where as = ?as1 and ps = ?ps1, OF attrs p1 l1] h1 by blast
  have p2: "map (parse_wavelength_pair ?E)
              (tokenize ?E (attr_value ?as2 ''value'') (default_delim ?E)) = map Inr ?ps2"
    by (simp add: ex_simps parse_wavelength_pair_def)
  have l2: "2 \<le> length ?ps2" by simp
  have s2: "\<forall>k. Suc k < length ?ps2 \<longrightarrow> fst (?ps2 ! k) \<le> fst (?ps2 ! Suc k)"
    by (subst sorted_fst_iff [symmetric]) simp
  have h2: "\<exists>k. 2 \<le> k \<and> k < length ?ps2
              \<and> fst (?ps2 ! k) - fst (?ps2 ! (k - 1)) - (fst (?ps2 ! 1) - fst (?ps2 ! 0))
                > Epsilon ?E"
    by (rule exI [of _ 2]) (simp add: example_env_def)
  show "case_ESpectrum ?E example_ctx False ''spectrum'' ?as2 (Properties_new [])
        = Inl IrregularSpectrum"
    using main [where as = ?as2 and ps = ?ps2, OF attrs p2 l2] s2 h2 by blast
  have p3: "map (parse_wavelength_pair ?E)
              (tokenize ?E (attr_value ?as3 ''value'') (default_delim ?E)) = map Inr ?ps3"
    by (simp add: ex_simps parse_wavelength_pair_def)
  have l3: "2 \<le> length ?ps3" by simp
  have s3: "\<forall>k. Suc k < length ?ps3 \<longrightarrow> fst (?ps3 ! k) \<le> fst (?ps3 ! Suc k)"
    by (subst sorted_fst_iff [symmetric]) simp
  have h3: "\<forall>k. 2 \<le> k \<and> k < length ?ps3 \<longrightarrow>
              \<bar>fst (?ps3 ! k) - fst (?ps3 ! (k - 1)) - (fst (?ps3 ! 1) - fst (?ps3 ! 0))\<bar>
                \<le> Epsilon ?E"
  proof (intro allI impI)
    fix k assume "2 \<le> k \<and> k < length ?ps3"
    then have "k = 2" by simp
    then show "\<bar>fst (?ps3 ! k) - fst (?ps3 ! (k - 1)) - (fst (?ps3 ! 1) - fst (?ps3 ! 0))\<bar>
                \<le> Epsilon ?E"
      by (simp add: example_env_def)
  qed
  have m3: "\<not> monochrome example_ctx" by (simp add: example_ctx_def)
  have "case_ESpectrum ?E example_ctx False ''spectrum'' ?as3 (Properties_new []) =
        (case create_spectrum ?E example_ctx
                (interpolated_props (map fst ?ps3)
                   (map (\<lambda>p. snd p * (if False then 100 / 10568 else 1)) ?ps3)) of
           Inl e \<Rightarrow> Inl e
         | Inr obj \<Rightarrow>
             Inr (set_property (attr_value ?as3 ''name'') (PObject obj) (Properties_new [])))"
    using main [where as = ?as3 and ps = ?ps3, OF attrs p3 l3] s3 h3 m3 by blast
  then show "case_ESpectrum ?E example_ctx False ''spectrum'' ?as3 (Properties_new [])
        = Inr \<lparr>plugin_name = [], props_id = [],
          entries = [(''s'', PObject (SymObject ''interpolated'' (example_class ''spectrum'')
                       [(''lambda_min'', PFloat 400), (''lambda_max'', PFloat 600),
                        (''size'', PLong 3), (''values'', PPointer [1, 2, 3])]))]\<rparr>"
    by (simp add: create_spectrum_def interpolated_props_def set_property_def
          Properties_new_def example_env_def example_ctx_def attr_value_def example_class_def)
qed


text \<open>
  C3 as stated fails: two equal consecutive wavelengths are not an error. The element
  \<open><spectrum name="s" value="400:1 400:2"/>\<close> is parsed, and an \<open>interpolated\<close> spectrum
  with \<open>lambda_min = lambda_max = 400\<close> is created.
\<close>

theorem equal_wavelengths_accepted:
  "case_ESpectrum (example_env FileNotFound) example_ctx False ''spectrum''
     [(''name'', ''s''), (''value'', ''400:1 400:2'')] (Properties_new [])
   = Inr \<lparr>plugin_name = [], props_id = [],
          entries = [(''s'', PObject (SymObject ''interpolated'' (example_class ''spectrum'')
                       [(''lambda_min'', PFloat 400), (''lambda_max'', PFloat 400),
                        (''size'', PLong 2), (''values'', PPointer [1, 2])]))]\<rparr>"
  by (simp add: ex_simps spectrum_simps)


subsection \<open>The upgrade of texture offsets and scales\<close>

lemma upgrade_uv_list_all2:
  "upgrade_uv_list E cs = Inr cs' \<Longrightarrow> list_all2 (\<lambda>c c'. upgrade_uv E c = Inr c') cs cs'"
  by (induction cs arbitrary: cs') (auto split: sum.splits)

lemma take_float_Inr:
  "take_float E sel d cs = Inr (v, cs') \<Longrightarrow>
     (case sel of None \<Rightarrow> v = d | Some f \<Rightarrow> stof E (attr_value (node_attributes f) ''value'') = Inr v)
     \<and> cs' = (case sel of None \<Rightarrow> cs | Some f \<Rightarrow> remove1 f cs)"
  by (cases sel) (auto split: sum.splits)

lemma upgrade_uv_children_Inr:
  assumes "upgrade_uv_children E chs = Inr (kept, trafo)"
  shows "\<exists>ox oy sx sy.
      (case select_float ''uoffset'' chs of None \<Rightarrow> ox = 0
       | Some f \<Rightarrow> stof E (attr_value (node_attributes f) ''value'') = Inr ox)
    \<and> (case select_float ''voffset'' chs of None \<Rightarrow> oy = 0
       | Some f \<Rightarrow> stof E (attr_value (node_attributes f) ''value'') = Inr oy)
    \<and> (case select_float ''uscale'' chs of None \<Rightarrow> sx = 1
       | Some f \<Rightarrow> stof E (attr_value (node_attributes f) ''value'') = Inr sx)
    \<and> (case select_float ''vscale'' chs of None \<Rightarrow> sy = 1
       | Some f \<Rightarrow> stof E (attr_value (node_attributes f) ''value'') = Inr sy)
    \<and> kept = foldl (\<lambda>cs k. case select_float k chs of None \<Rightarrow> cs | Some f \<Rightarrow> remove1 f cs)
               chs [''uoffset'', ''voffset'', ''uscale'', ''vscale'']
    \<and> trafo = to_uv_transform E (ox, oy) (sx, sy)"
proof -
  from assms obtain ox c1 oy c2 sx c3 sy where
    1: "take_float E (select_float ''uoffset'' chs) 0 chs = Inr (ox, c1)" and
    2: "take_float E (select_float ''voffset'' chs) 0 c1 = Inr (oy, c2)" and
    3: "take_float E (select_float ''uscale'' chs) 1 c2 = Inr (sx, c3)" and
    4: "take_float E (select_float ''vscale'' chs) 1 c3 = Inr (sy, kept)" and
    5: "trafo = to_uv_transform E (ox, oy) (sx, sy)"
    by (auto simp: upgrade_uv_children_def Let_def split: sum.splits)
  note f = take_float_Inr [OF 1] take_float_Inr [OF 2] take_float_Inr [OF 3]
    take_float_Inr [OF 4]
  show ?thesis
    apply (rule exI [of _ ox], rule exI [of _ oy], rule exI [of _ sx], rule exI [of _ sy])
    using f 5 apply (simp split: option.splits)
    done
qed

text \<open>
  C2 (as the code has it). When the third step of the upgrade visits an element that has a
  child \<open>float\<close> whose \<open>name\<close> attribute is \<open>uoffset\<close>, \<open>voffset\<close>, \<open>uscale\<close> or
  \<open>vscale\<close> (in this spelling, after the first step has rewritten the names), and the
  upgrade of the element succeeds, then: the first such child of each name is removed; the
  children that stay are upgraded in turn; and a \<open>transform\<close> named \<open>to_uv\<close> is appended
  as the last child. The offsets default to 0 and the scales to 1; the transform contains
  a \<open>translate\<close> exactly when an offset differs from 0 and a \<open>scale\<close> exactly when a
  scale differs from 1, with the values printed by \<open>std::to_string\<close>.
\<close>

theorem uv_floats_become_transform:
  assumes "has_uv_float chs"
    and "upgrade_uv E (XNode ty nm as chs off) = Inr n'"
  shows "\<exists>ox oy sx sy kept'.
      (case select_float ''uoffset'' chs of None \<Rightarrow> ox = 0
       | Some f \<Rightarrow> stof E (attr_value (node_attributes f) ''value'') = Inr ox)
    \<and> (case select_float ''voffset'' chs of None \<Rightarrow> oy = 0
       | Some f \<Rightarrow> stof E (attr_value (node_attributes f) ''value'') = Inr oy)
    \<and> (case select_float ''uscale'' chs of None \<Rightarrow> sx = 1
       | Some f \<Rightarrow> stof E (attr_value (node_attributes f) ''value'') = Inr sx)
    \<and> (case select_float ''vscale'' chs of None \<Rightarrow> sy = 1
       | Some f \<Rightarrow> stof E (attr_value (node_attributes f) ''value'') = Inr sy)
    \<and> list_all2 (\<lambda>c c'. upgrade_uv E c = Inr c')
         (foldl (\<lambda>cs k. case select_float k chs of None \<Rightarrow> cs | Some f \<Rightarrow> remove1 f cs)
            chs [''uoffset'', ''voffset'', ''uscale'', ''vscale''])
         kept'
    \<and> n' = XNode ty nm as
           (kept' @
            [XNode node_element ''transform'' [(''name'', ''to_uv'')]
               ((if ox \<noteq> 0 \<or> oy \<noteq> 0
                 then [XNode node_element ''translate''
                         [(''x'', float_to_string E ox), (''y'', float_to_string E oy)] [] 0]
                 else [])
                @ (if sx \<noteq> 1 \<or> sy \<noteq> 1
                   then [XNode node_element ''scale''
                           [(''x'', float_to_string E sx), (''y'', float_to_string E sy)] [] 0]
                   else []))
               0])
           off"
proof -
  from assms obtain kept trafo kept' where
    ch: "upgrade_uv_children E chs = Inr (kept, trafo)" and
    ls: "upgrade_uv_list E kept = Inr kept'" and
    n': "n' = XNode ty nm as (kept' @ [trafo]) off"
    by (auto split: sum.splits)
  from upgrade_uv_children_Inr [OF ch] obtain ox oy sx sy where
    v: "(case select_float ''uoffset'' chs of None \<Rightarrow> ox = 0
       | Some f \<Rightarrow> stof E (attr_value (node_attributes f) ''value'') = Inr ox)"
      "(case select_float ''voffset'' chs of None \<Rightarrow> oy = 0
       | Some f \<Rightarrow> stof E (attr_value (node_attributes f) ''value'') = Inr oy)"
      "(case select_float ''uscale'' chs of None \<Rightarrow> sx = 1
       | Some f \<Rightarrow> stof E (attr_value (node_attributes f) ''value'') = Inr sx)"
      "(case select_float ''vscale'' chs of None \<Rightarrow> sy = 1
       | Some f \<Rightarrow> stof E (attr_value (node_attributes f) ''value'') = Inr sy)" and
    k: "kept = foldl (\<lambda>cs k. case select_float k chs of None \<Rightarrow> cs | Some f \<Rightarrow> remove1 f cs)
               chs [''uoffset'', ''voffset'', ''uscale'', ''vscale'']" and
    t: "trafo = to_uv_transform E (ox, oy) (sx, sy)"
    by blast
  from upgrade_uv_list_all2 [OF ls] k
  have l: "list_all2 (\<lambda>c c'. upgrade_uv E c = Inr c')
         (foldl (\<lambda>cs k. case select_float k chs of None \<Rightarrow> cs | Some f \<Rightarrow> remove1 f cs)
            chs [''uoffset'', ''voffset'', ''uscale'', ''vscale''])
         kept'"
    by simp
  have e: "n' = XNode ty nm as
           (kept' @
            [XNode node_element ''transform'' [(''name'', ''to_uv'')]
               ((if ox \<noteq> 0 \<or> oy \<noteq> 0
                 then [XNode node_element ''translate''
                         [(''x'', float_to_string E ox), (''y'', float_to_string E oy)] [] 0]
                 else [])
                @ (if sx \<noteq> 1 \<or> sy \<noteq> 1
                   then [XNode node_element ''scale''
                           [(''x'', float_to_string E sx), (''y'', float_to_string E sy)] [] 0]
                   else []))
               0])
           off"
    by (simp add: n' t to_uv_transform_def)
  show ?thesis
    apply (rule exI [of _ ox], rule exI [of _ oy], rule exI [of _ sx], rule exI [of _ sy],
        rule exI [of _ kept'])
    apply (intro conjI)
    apply (rule v l e)+
    done
qed


text \<open>
  The example of the specification with the name spelled \<open>uoffset\<close>: the upgraded tree
  contains \<open>lookat\<close>, the \<open>float\<close> is gone, and the parent has gained the transform
  \<open>to_uv\<close> with a \<open>translate\<close> whose attributes are \<open>x = 0.500000\<close> and
  \<open>y = 0.000000\<close>.
\<close>

lemma ts: "example_to_string (1 / 2) = ''0.500000''" "example_to_string 0 = ''0.000000''"
  by (simp_all add: example_to_string_def to_string_digit to_string_step Let_def)

lemmas camel_simps = camel_to_underscore_def camel_loop.simps lower_run.simps char_at_def
  islower_def isupper_def tolower_def

lemmas upgrade_simps = upgrade_tree_def Version_lt_def upgrade_uv_children_def select_float_def
  has_uv_float_def to_uv_transform_def

lemmas stof_simps = stof_def example_stof_def split_sign_def isspace_def is_digit_def
  digits_value_def digit_value_def check_whitespace_only_def attr_value_def

theorem uv_floats_become_transform_witness:
  "upgrade_tree (example_env FileNotFound)
      \<lparr>src_id = ''doc'', src_depth = 0, src_modified = False\<rparr>
      (XNode node_element ''bsdf'' [(''type'', ''diffuse'')]
         [XNode node_element ''lookAt'' [(''origin'', ''0 0 0'')] [] 40,
          XNode node_element ''float'' [(''name'', ''uoffset''), (''value'', ''0.5'')] [] 80] 10)
      \<lparr>major = 1, minor = 0, patch = 0\<rparr>
    = Inr (\<lparr>src_id = ''doc'', src_depth = 0, src_modified = True\<rparr>,
           XNode node_element ''bsdf'' [(''type'', ''diffuse'')]
             [XNode node_element ''lookat'' [(''origin'', ''0 0 0'')] [] 40,
              XNode node_element ''transform'' [(''name'', ''to_uv'')]
                [XNode node_element ''translate''
                   [(''x'', ''0.500000''), (''y'', ''0.000000'')] [] 0] 0] 10)
   \<and> has_uv_float
         [XNode node_element ''lookat'' [(''origin'', ''0 0 0'')] [] 40,
          XNode node_element ''float'' [(''name'', ''uoffset''), (''value'', ''0.5'')] [] 80]
   \<and> (\<exists>ox kept'.
         stof (example_env FileNotFound) ''0.5'' = Inr ox
         \<and> list_all2 (\<lambda>c c'. upgrade_uv (example_env FileNotFound) c = Inr c')
               [XNode node_element ''lookat'' [(''origin'', ''0 0 0'')] [] 40] kept'
         \<and> XNode node_element ''bsdf'' [(''type'', ''diffuse'')]
             [XNode node_element ''lookat'' [(''origin'', ''0 0 0'')] [] 40,
              XNode node_element ''transform'' [(''name'', ''to_uv'')]
                [XNode node_element ''translate''
                   [(''x'', ''0.500000''), (''y'', ''0.000000'')] [] 0] 0] 10
           = XNode node_element ''bsdf'' [(''type'', ''diffuse'')]
               (kept' @
                [XNode node_element ''transform'' [(''name'', ''to_uv'')]
                   (if ox \<noteq> 0
                    then [XNode node_element ''translate''
                            [(''x'', float_to_string (example_env FileNotFound) ox),
                             (''y'', float_to_string (example_env FileNotFound) 0)] [] 0]
                    else [])
                   0])
               10)"
proof (intro conjI)
  let ?E = "example_env FileNotFound"
  let ?lookat = "XNode node_element ''lookat'' [(''origin'', ''0 0 0'')] [] 40"
  let ?float = "XNode node_element ''float'' [(''name'', ''uoffset''), (''value'', ''0.5'')] [] 80"
  let ?out = "XNode node_element ''bsdf'' [(''type'', ''diffuse'')]
             [?lookat,
              XNode node_element ''transform'' [(''name'', ''to_uv'')]
                [XNode node_element ''translate''
                   [(''x'', ''0.500000''), (''y'', ''0.000000'')] [] 0] 0] 10"
  show "upgrade_tree ?E \<lparr>src_id = ''doc'', src_depth = 0, src_modified = False\<rparr>
      (XNode node_element ''bsdf'' [(''type'', ''diffuse'')]
         [XNode node_element ''lookAt'' [(''origin'', ''0 0 0'')] [] 40, ?float] 10)
      \<lparr>major = 1, minor = 0, patch = 0\<rparr>
    = Inr (\<lparr>src_id = ''doc'', src_depth = 0, src_modified = True\<rparr>, ?out)"
    by (simp add: upgrade_simps camel_simps example_env_def stof_simps ts)
  show h: "has_uv_float [?lookat, ?float]"
    by (simp add: has_uv_float_def select_float_def)
  have u: "upgrade_uv ?E (XNode node_element ''bsdf'' [(''type'', ''diffuse'')] [?lookat, ?float] 10)
             = Inr ?out"
    by (simp add: upgrade_simps example_env_def stof_simps ts)
  have sel: "select_float ''uoffset'' [?lookat, ?float] = Some ?float"
    "select_float ''voffset'' [?lookat, ?float] = None"
    "select_float ''uscale'' [?lookat, ?float] = None"
    "select_float ''vscale'' [?lookat, ?float] = None"
    by (simp_all add: select_float_def)
  from uv_floats_become_transform [OF h u]
  show "\<exists>ox kept'.
         stof ?E ''0.5'' = Inr ox
         \<and> list_all2 (\<lambda>c c'. upgrade_uv ?E c = Inr c') [?lookat] kept'
         \<and> ?out = XNode node_element ''bsdf'' [(''type'', ''diffuse'')]
               (kept' @
                [XNode node_element ''transform'' [(''name'', ''to_uv'')]
                   (if ox \<noteq> 0
                    then [XNode node_element ''translate''
                            [(''x'', float_to_string ?E ox), (''y'', float_to_string ?E 0)] [] 0]
                    else [])
                   0])
               10"
    by (simp add: sel attr_value_def)
qed

text \<open>
  C2 as stated fails on its own example: the first step rewrites the name \<open>uOffset\<close> to
  \<open>u_offset\<close>, which the third step does not match, so the \<open>float\<close> stays and no
  \<open>transform\<close> is appended.
\<close>

theorem camel_case_uoffset_is_not_upgraded:
  "upgrade_tree (example_env FileNotFound)
      \<lparr>src_id = ''doc'', src_depth = 0, src_modified = False\<rparr>
      (XNode node_element ''bsdf'' [(''type'', ''diffuse'')]
         [XNode node_element ''lookAt'' [(''origin'', ''0 0 0'')] [] 40,
          XNode node_element ''float'' [(''name'', ''uOffset''), (''value'', ''0.5'')] [] 80] 10)
      \<lparr>major = 1, minor = 0, patch = 0\<rparr>
    = Inr (\<lparr>src_id = ''doc'', src_depth = 0, src_modified = True\<rparr>,
           XNode node_element ''bsdf'' [(''type'', ''diffuse'')]
             [XNode node_element ''lookat'' [(''origin'', ''0 0 0'')] [] 40,
              XNode node_element ''float'' [(''name'', ''u_offset''), (''value'', ''0.5'')] [] 80]
             10)"
  by (simp add: upgrade_simps camel_simps example_env_def)

end
